theory Spec2Isabelle
  imports Main "HOL-Library.Sublist"
begin

section \<open>Python values used by the client\<close>

text \<open>
  The scalar values a caller can put into a filter: \<open>str\<close>, \<open>int\<close>, \<open>bool\<close> and \<open>None\<close>.
  Floats and containers other than the comparison dictionary are outside the model.
\<close>

datatype scalar = SStr string | SInt int | SBool bool | SNone

text \<open>JSON documents, as \<open>json.loads\<close> returns them and \<open>json.dumps\<close> takes them.\<close>

datatype json =
    JNull
  | JBool bool
  | JNum int
  | JStr string
  | JArr "json list"
  | JObj "(string \<times> json) list"

text \<open>
  Exceptions. The two classes of the library carry message, code and details
  (\<open>MintHCMError.__init__\<close>); the others are the builtin exceptions that the code lets
  escape: a failed dictionary lookup, a list index out of range, a missing attribute,
  a file-system error, bytes that cannot be decoded, and any other exception raised by
  the HTTP session.
\<close>

datatype error =
    AuthenticationError string "int option" json
  | RequestError string "int option" json
  | KeyError scalar
  | IndexError
  | AttributeError
  | OSError string
  | UnicodeDecodeError
  | OtherError string

fun is_minthcm_error :: "error \<Rightarrow> bool" where
  "is_minthcm_error (AuthenticationError m c d) = True"
| "is_minthcm_error (RequestError m c d) = True"
| "is_minthcm_error e = False"

fun is_request_error :: "error \<Rightarrow> bool" where
  "is_request_error (RequestError m c d) = True"
| "is_request_error e = False"

subsection \<open>String helpers of the Python runtime\<close>

text \<open>\<open>str(n)\<close> for a natural number: its decimal digits.\<close>

fun digits :: "nat \<Rightarrow> string" where
  "digits n = (if n < 10 then [''0123456789'' ! n]
               else digits (n div 10) @ [''0123456789'' ! (n mod 10)])"

declare digits.simps [simp del]

text \<open>\<open>f"{v}"\<close> for a scalar \<open>v\<close>, that is \<open>str(v)\<close>.\<close>

fun py_str :: "scalar \<Rightarrow> string" where
  "py_str (SStr s) = s"
| "py_str (SInt i) = (if i < 0 then CHR ''-'' # digits (nat (- i)) else digits (nat i))"
| "py_str (SBool b) = (if b then ''True'' else ''False'')"
| "py_str SNone = ''None''"

text \<open>\<open>s.split(sep)\<close> for a one-character separator: never empty, splits at every separator.\<close>

fun split_on :: "char \<Rightarrow> string \<Rightarrow> string list" where
  "split_on sep [] = [[]]"
| "split_on sep (c # cs) =
     (if c = sep then [] # split_on sep cs
      else (case split_on sep cs of
              [] \<Rightarrow> [[c]]
            | p # ps \<Rightarrow> (c # p) # ps))"

text \<open>\<open>sep.join(xs)\<close>.\<close>

fun join :: "string \<Rightarrow> string list \<Rightarrow> string" where
  "join sep [] = []"
| "join sep [x] = x"
| "join sep (x # y # ys) = x @ sep @ join sep (y # ys)"

text \<open>\<open>s.rstrip("/")\<close>: every trailing slash is removed.\<close>

definition rstrip_slash :: "string \<Rightarrow> string" where
  "rstrip_slash s = rev (dropWhile (\<lambda>c. c = CHR ''/'') (rev s))"

text \<open>
  \<open>str.isspace\<close> on the code points below 256, and \<open>s.strip()\<close>, which removes the
  white space at both ends.
\<close>

definition is_space :: "char \<Rightarrow> bool" where
  "is_space c = ((of_char c :: nat) \<in> {9, 10, 11, 12, 13, 28, 29, 30, 31, 32, 133, 160})"

definition strip :: "string \<Rightarrow> string" where
  "strip s = rev (dropWhile is_space (rev (dropWhile is_space s)))"

section \<open>Query translation of the module accessor\<close>

text \<open>
  A filter value (\<open>**filters\<close> of \<open>Module.get\<close>) is either a dictionary, looked up at the
  keys \<open>operator\<close> and \<open>value\<close>, or anything else, formatted as it is.
\<close>

datatype fval = Plain scalar | Dict "string \<rightharpoonup> scalar"

text \<open>The table \<open>operators\<close> of \<open>Module.get\<close>.\<close>

definition operators :: "(string \<times> string) list" where
  "operators =
     [(''='', ''EQ''), (''<>'', ''NEQ''), (''>'', ''GT''), (''>='', ''GTE''),
      (''<'', ''LT''), (''<='', ''LTE''), (''LIKE'', ''LIKE''),
      (''NOT LIKE'', ''NOT_LIKE''), (''IN'', ''IN''), (''NOT IN'', ''NOT_IN'')]"

text \<open>\<open>operators[k]\<close>: a key that is not in the table raises \<open>KeyError\<close>.\<close>

fun operators_lookup :: "scalar \<Rightarrow> error + string" where
  "operators_lookup (SStr s) =
     (case map_of operators s of None \<Rightarrow> Inl (KeyError (SStr s)) | Some code \<Rightarrow> Inr code)"
| "operators_lookup k = Inl (KeyError k)"

text \<open>\<open>value[k]\<close> on the comparison dictionary.\<close>

definition dict_get :: "(string \<rightharpoonup> scalar) \<Rightarrow> string \<Rightarrow> error + scalar" where
  "dict_get d k = (case d k of None \<Rightarrow> Inl (KeyError (SStr k)) | Some v \<Rightarrow> Inr v)"

text \<open>
  The body of the loop over \<open>filters.items()\<close>: the text appended to \<open>filter_str\<close> for one
  field, or the exception raised while building it.
\<close>

fun filter_clause :: "string \<Rightarrow> fval \<Rightarrow> error + string" where
  "filter_clause field (Plain v) = Inr (''&filter['' @ field @ ''][EQ]='' @ py_str v)"
| "filter_clause field (Dict d) =
     (case dict_get d ''operator'' of
        Inl e \<Rightarrow> Inl e
      | Inr opr \<Rightarrow>
          if opr = SStr ''BETWEEN'' then
            (case dict_get d ''value'' of
               Inl e \<Rightarrow> Inl e
             | Inr (SStr s) \<Rightarrow>
                 (let values = split_on CHR '','' s in
                  if length values < 2 then Inl IndexError
                  else Inr (''&filter['' @ field @ ''][GT]='' @ values ! 0 @
                            ''&filter['' @ field @ ''][LT]='' @ values ! 1))
             | Inr _ \<Rightarrow> Inl AttributeError)
          else
            (case operators_lookup opr of
               Inl e \<Rightarrow> Inl e
             | Inr code \<Rightarrow>
                 (case dict_get d ''value'' of
                    Inl e \<Rightarrow> Inl e
                  | Inr v \<Rightarrow> Inr (''&filter['' @ field @ '']['' @ code @ '']='' @ py_str v))))"

text \<open>The loop itself: \<open>filter_str += ...\<close> for each field in order, stopping at an exception.\<close>

fun filter_loop :: "(string \<times> fval) list \<Rightarrow> string \<Rightarrow> error + string" where
  "filter_loop [] filter_str = Inr filter_str"
| "filter_loop ((field, v) # rest) filter_str =
     (case filter_clause field v of
        Inl e \<Rightarrow> Inl e
      | Inr s \<Rightarrow> filter_loop rest (filter_str @ s))"

text \<open>
  The URL that \<open>Module.get\<close> hands to the session manager: everything of the method up to
  the final call \<open>self.minthcm.get(url)\<close> (\<open>fields_arg\<close> and \<open>sort_arg\<close> are the parameters \<open>fields\<close> and \<open>sort\<close>).
\<close>

definition get_url ::
  "string \<Rightarrow> string \<Rightarrow> string list option \<Rightarrow> string option \<Rightarrow> string \<Rightarrow>
   (string \<times> fval) list \<Rightarrow> error + string" where
  "get_url base module_name fields_arg sort_arg operator filters =
     (let fields_str =
            (case fields_arg of
               None \<Rightarrow> ''?''
             | Some fs \<Rightarrow> if fs \<noteq> [] then ''?fields['' @ module_name @ '']='' @ join '','' fs
                          else ''?'');
          operator = (if operator \<noteq> ''and'' \<and> operator \<noteq> ''or'' then ''and'' else operator);
          filter_str = ''filter[operator]='' @ operator
      in case filter_loop filters filter_str of
           Inl e \<Rightarrow> Inl e
         | Inr filter_str \<Rightarrow>
             (let url = base @ ''/module/'' @ module_name @ fields_str @ ''&'' @ filter_str
              in case sort_arg of
                   None \<Rightarrow> Inr url
                 | Some s \<Rightarrow> if s \<noteq> [] then Inr (url @ ''&sort=-'' @ s) else Inr url))"

section \<open>The API session manager\<close>

subsection \<open>The environment: libraries, files and the OAuth2 session\<close>

datatype HTTPMethod = GET | POST | PATCH | DELETE

text \<open>
  \<open>json.loads\<close> on the bytes of a response: a document, \<open>JSONDecodeError\<close> when the bytes
  are text that is not JSON, or \<open>UnicodeDecodeError\<close> when the bytes cannot be decoded
  to text at all.
\<close>

datatype loads_result = Parsed json | NotJSON | NotText

text \<open>
  The functions of the standard library and of \<open>requests_oauthlib\<close> that the client calls
  and whose code is not part of the repository are parameters of the model:
  \<open>json.loads\<close> on a string (\<open>None\<close> when it raises \<open>JSONDecodeError\<close>) and on the bytes
  of a response, \<open>bytes.decode\<close> (\<open>None\<close> when the bytes are not valid UTF-8 and it
  raises \<open>UnicodeDecodeError\<close>), \<open>json.dumps\<close>, \<open>urllib.parse.quote\<close> with
  \<open>safe="/:?=&"\<close>, the setter of \<open>OAuth2Session.token\<close> (\<open>Some msg\<close> when it raises), the
  default headers of a new session and the \<open>repr\<close> of a byte string.
\<close>

record pylib =
  json_loads :: "string \<Rightarrow> json option"
  json_loads_bytes :: "string \<Rightarrow> loads_result"
  bytes_decode :: "string \<Rightarrow> string option"
  json_dumps :: "json \<Rightarrow> string"
  quote :: "string \<Rightarrow> string"
  token_setter :: "json \<Rightarrow> string option"
  default_headers :: "string \<rightharpoonup> string"
  bytes_repr :: "string \<Rightarrow> string"

text \<open>
  What the client does to the outside is a call on the OAuth2 session: an HTTP request
  (method, URL, body) or \<open>fetch_token\<close> (token URL, client id, client secret).
\<close>

datatype event =
    Request HTTPMethod string "string option"
  | FetchToken string string string

text \<open>
  What the session answers to a request: a response with status code and content,
  \<open>TokenExpiredError\<close>, or another exception with its message.
\<close>

datatype response = Response int string | TokenExpired | RequestRaised string

text \<open>
  What \<open>fetch_token\<close> does: it stores and returns a token, or raises \<open>InvalidClientError\<close>,
  \<open>CustomOAuth2Error\<close> or another exception with its message.
\<close>

datatype grant_outcome = Granted json | InvalidClient | CustomOAuth2 | FetchRaised string

text \<open>
  The world outside the client: the files (content, and the error that opening a path for
  reading or for writing raises, if any), the calls made on the session so far, how the
  session answers the latest call given all calls so far, the messages logged with
  \<open>logging.error\<close> and the callbacks registered with \<open>atexit\<close>.
\<close>

datatype hook = LogoutHook

record world =
  file_content :: "string \<rightharpoonup> string"
  read_error :: "string \<rightharpoonup> string"
  write_error :: "string \<rightharpoonup> string"
  calls :: "event list"
  respond :: "event list \<Rightarrow> response"
  grant :: "event list \<Rightarrow> grant_outcome"
  error_log :: "string list"
  atexit :: "hook list"

subsection \<open>The client object\<close>

record oauth_session =
  token :: json
  headers :: "string \<rightharpoonup> string"

record client =
  baseurl :: string
  client_id :: string
  client_secret :: string
  token_path :: string
  logout_on_exit :: bool
  user_agent :: string
  session :: oauth_session

type_synonym 'a result = "(error + 'a) \<times> client \<times> world"

text \<open>
  \<open>MintHCM._load_token\<close>. It returns \<open>True\<close>, \<open>False\<close> or, when the file holds only white
  space, falls off the end of the function and returns \<open>None\<close>. Only \<open>FileNotFoundError\<close>
  and \<open>JSONDecodeError\<close> are caught.
\<close>

definition load_token :: "pylib \<Rightarrow> client \<Rightarrow> world \<Rightarrow> bool option result" where
  "load_token L c w =
     (if token_path c = [] then (Inr (Some False), c, w)
      else case read_error w (token_path c) of
             Some msg \<Rightarrow> (Inl (OSError msg), c, w)
           | None \<Rightarrow>
               (case file_content w (token_path c) of
                  None \<Rightarrow> (Inr (Some False), c, w)
                | Some text \<Rightarrow>
                    (let token_data = strip text in
                     if token_data = [] then (Inr None, c, w)
                     else case json_loads L token_data of
                            None \<Rightarrow> (Inr (Some False), c, w)
                          | Some j \<Rightarrow>
                              (case token_setter L j of
                                 Some msg \<Rightarrow> (Inl (OtherError msg), c, w)
                               | None \<Rightarrow>
                                   (Inr (Some True),
                                    c\<lparr>session := (session c)\<lparr>token := j\<rparr>\<rparr>, w)))))"

text \<open>\<open>MintHCM._save_token\<close>.\<close>

definition save_token :: "pylib \<Rightarrow> client \<Rightarrow> world \<Rightarrow> unit result" where
  "save_token L c w =
     (if token_path c = [] then (Inr (), c, w)
      else case write_error w (token_path c) of
             Some msg \<Rightarrow> (Inl (OSError msg), c, w)
           | None \<Rightarrow>
               (Inr (), c,
                w\<lparr>file_content :=
                    (file_content w)(token_path c \<mapsto> json_dumps L (token (session c)))\<rparr>))"

text \<open>The token URL of \<open>_refresh_token\<close>: \<open>f"{self.baseurl[:-2]}access_token"\<close>.\<close>

definition token_url :: "string \<Rightarrow> string" where
  "token_url base = take (length base - 2) base @ ''access_token''"

text \<open>\<open>str(e)\<close> for the exceptions that can reach the last handler of \<open>_refresh_token\<close>.\<close>

fun error_str :: "error \<Rightarrow> string" where
  "error_str (OSError msg) = msg"
| "error_str (OtherError msg) = msg"
| "error_str (AuthenticationError msg code details) = msg"
| "error_str (RequestError msg code details) = msg"
| "error_str e = []"

text \<open>\<open>MintHCM._refresh_token\<close>.\<close>

definition refresh_token :: "pylib \<Rightarrow> client \<Rightarrow> world \<Rightarrow> unit result" where
  "refresh_token L c w =
     (let w1 = w\<lparr>calls := calls w @
                   [FetchToken (token_url (baseurl c)) (client_id c) (client_secret c)]\<rparr>
      in case grant w1 (calls w1) of
           Granted tok \<Rightarrow>
             (case save_token L (c\<lparr>session := (session c)\<lparr>token := tok\<rparr>\<rparr>) w1 of
                (Inl e, c2, w2) \<Rightarrow>
                  (Inl (RequestError (''failed to refresh token: '' @ error_str e) None (JStr [])),
                   c2, w2)
              | (Inr u, c2, w2) \<Rightarrow> (Inr (), c2, w2))
         | InvalidClient \<Rightarrow>
             (Inl (AuthenticationError ''invalid API client ID or secret'' None (JStr [])), c, w1)
         | CustomOAuth2 \<Rightarrow>
             (Inl (RequestError ''error accessing MintHCM API'' None (JStr [])), c, w1)
         | FetchRaised msg \<Rightarrow>
             (Inl (RequestError (''failed to refresh token: '' @ msg) None (JStr [])), c, w1))"

text \<open>
  \<open>hasattr(self, "OAuth2Session")\<close> in \<open>_login\<close>: no code of the class sets an attribute of
  that name, so the test is false on every client.
\<close>

definition has_OAuth2Session_attr :: "client \<Rightarrow> bool" where
  "has_OAuth2Session_attr c = False"

text \<open>The session that \<open>_login\<close> builds: an empty token and the two headers set.\<close>

definition new_session :: "pylib \<Rightarrow> client \<Rightarrow> oauth_session" where
  "new_session L c =
     \<lparr>token = JObj [],
      headers = (default_headers L)(''User-Agent'' \<mapsto> user_agent c,
                                    ''Content-Type'' \<mapsto> ''application/json'')\<rparr>"

text \<open>\<open>MintHCM._login\<close>.\<close>

definition login :: "pylib \<Rightarrow> client \<Rightarrow> world \<Rightarrow> unit result" where
  "login L c w =
     (case (if \<not> has_OAuth2Session_attr c then
              (let c1 = c\<lparr>session := new_session L c\<rparr> in
               if token_path c1 = [] then refresh_token L c1 w
               else case load_token L c1 w of
                      (Inl e, c2, w2) \<Rightarrow> (Inl e, c2, w2)
                    | (Inr loaded, c2, w2) \<Rightarrow>
                        if loaded = Some True then (Inr (), c2, w2)
                        else refresh_token L c2 w2)
            else refresh_token L c w) of
        (Inl e, c3, w3) \<Rightarrow> (Inl e, c3, w3)
      | (Inr u, c3, w3) \<Rightarrow>
          (Inr (), c3,
           if logout_on_exit c3 then w3\<lparr>atexit := atexit w3 @ [LogoutHook]\<rparr> else w3))"

text \<open>
  \<open>MintHCM.__init__\<close>. The attribute \<open>session\<close> does not exist before \<open>_login\<close> creates it;
  the record needs a value there, which \<open>login\<close> overwrites before anything reads it.
\<close>

definition init ::
  "pylib \<Rightarrow> string \<Rightarrow> string \<Rightarrow> string \<Rightarrow> string \<Rightarrow> bool \<Rightarrow> world \<Rightarrow> unit result" where
  "init L cid secret url path logout_flag w =
     login L
       \<lparr>baseurl = url, client_id = cid, client_secret = secret, token_path = path,
        logout_on_exit = logout_flag,
        user_agent = ''Mozilla/5.0 (Windows NT 10.0; Win64; x64) AppleWebKit/537.36 '' @
                     ''(KHTML, like Gecko) Chrome/97.0.4692.99 Safari/537.36'',
        session = \<lparr>token = JNull, headers = Map.empty\<rparr>\<rparr> w"

subsection \<open>Dispatch\<close>

text \<open>\<open>obj.get(key, default)\<close>: only a dictionary has the method.\<close>

fun json_get :: "json \<Rightarrow> string \<Rightarrow> json \<Rightarrow> error + json" where
  "json_get (JObj kvs) k dflt = Inr (case map_of kvs k of None \<Rightarrow> dflt | Some v \<Rightarrow> v)"
| "json_get j k dflt = Inl AttributeError"

text \<open>\<open>content.get("errors", {}).get("detail", "")\<close>.\<close>

definition error_details :: "json \<Rightarrow> error + json" where
  "error_details content =
     (case json_get content ''errors'' (JObj []) of
        Inl e \<Rightarrow> Inl e
      | Inr errs \<Rightarrow> json_get errs ''detail'' (JStr []))"

text \<open>
  The handler of \<open>JSONDecodeError\<close> in \<open>_request\<close>: log, then raise \<open>RequestError\<close> with
  the decoded body in the details. \<open>response.content.decode()\<close> is evaluated while the
  \<open>RequestError\<close> is built; when the body is not valid UTF-8 it raises
  \<open>UnicodeDecodeError\<close>, which leaves the handler instead.
\<close>

definition decode_failure :: "pylib \<Rightarrow> int \<Rightarrow> string \<Rightarrow> client \<Rightarrow> world \<Rightarrow> json result" where
  "decode_failure L status_code content c w =
     (let w1 = w\<lparr>error_log := error_log w @
                   [''Failed to decode JSON response: '' @ bytes_repr L content]\<rparr>
      in case bytes_decode L content of
           None \<Rightarrow> (Inl UnicodeDecodeError, c, w1)
         | Some decoded \<Rightarrow>
             (Inl (RequestError ''request failed'' (Some status_code)
                     (JStr (''Invalid JSON response: '' @ decoded))),
              c, w1))"

text \<open>
  The loop \<open>for attempt in range(2)\<close> of \<open>_request\<close>, over the attempts still to make.
  A \<open>UnicodeDecodeError\<close> of \<open>json.loads\<close> is not a \<open>JSONDecodeError\<close>: it reaches the
  last handler and is re-raised. An exception of \<open>_refresh_token\<close> leaves the loop: raised in the \<open>try\<close> block it reaches
  the last handler, which re-raises everything that is not \<open>TokenExpiredError\<close>, and raised
  in the handler of \<open>TokenExpiredError\<close> it propagates at once.
\<close>

fun attempts ::
  "pylib \<Rightarrow> HTTPMethod \<Rightarrow> string \<Rightarrow> string \<Rightarrow> nat list \<Rightarrow> client \<Rightarrow> world \<Rightarrow> json result" where
  "attempts L method url data [] c w =
     (Inl (RequestError ''request failed after retrying'' None (JStr [])), c, w)"
| "attempts L method url data (attempt # rest) c w =
     (let w1 = w\<lparr>calls := calls w @
                   [Request method url
                      (if method = GET \<or> method = DELETE then None else Some data)]\<rparr>
      in case respond w1 (calls w1) of
           Response status_code content \<Rightarrow>
             if status_code = 401 then
               (if attempt = 0 then
                  (case refresh_token L c w1 of
                     (Inl e, c2, w2) \<Rightarrow> (Inl e, c2, w2)
                   | (Inr u, c2, w2) \<Rightarrow> attempts L method url data rest c2 w2)
                else
                  (Inl (AuthenticationError ''authentication failed - token rejected''
                          (Some 401) (JStr [])), c, w1))
             else if status_code \<ge> 400 then
               (case json_loads_bytes L content of
                  NotText \<Rightarrow> (Inl UnicodeDecodeError, c, w1)
                | NotJSON \<Rightarrow> decode_failure L status_code content c w1
                | Parsed j \<Rightarrow>
                    (case error_details j of
                       Inl e \<Rightarrow> (Inl e, c, w1)
                     | Inr d \<Rightarrow>
                         (Inl (RequestError ''request failed'' (Some status_code) d), c, w1)))
             else
               (case json_loads_bytes L content of
                  NotText \<Rightarrow> (Inl UnicodeDecodeError, c, w1)
                | NotJSON \<Rightarrow> decode_failure L status_code content c w1
                | Parsed j \<Rightarrow> (Inr j, c, w1))
         | TokenExpired \<Rightarrow>
             if attempt = 0 then
               (case refresh_token L c w1 of
                  (Inl e, c2, w2) \<Rightarrow> (Inl e, c2, w2)
                | (Inr u, c2, w2) \<Rightarrow> attempts L method url data rest c2 w2)
             else (Inl (AuthenticationError ''API token refresh failed'' None (JStr [])), c, w1)
         | RequestRaised msg \<Rightarrow> (Inl (OtherError msg), c, w1))"

text \<open>
  \<open>MintHCM._request\<close>. The method is one of the four members of \<open>HTTPMethod\<close>, each of
  which names a method of the session, so \<open>getattr\<close> does not fail; a missing payload is
  \<open>None\<close>, serialised as \<open>null\<close>.
\<close>

definition request ::
  "pylib \<Rightarrow> string \<Rightarrow> HTTPMethod \<Rightarrow> json option \<Rightarrow> client \<Rightarrow> world \<Rightarrow> json result" where
  "request L url method payload c w =
     (let url = rstrip_slash url;
          url = quote L url;
          data = json_dumps L
                   (JObj [(''data'', case payload of None \<Rightarrow> JNull | Some p \<Rightarrow> p)])
      in attempts L method url data [0, 1] c w)"

definition minthcm_get :: "pylib \<Rightarrow> string \<Rightarrow> client \<Rightarrow> world \<Rightarrow> json result" where
  "minthcm_get L url c w = request L url GET None c w"

definition minthcm_post :: "pylib \<Rightarrow> string \<Rightarrow> json \<Rightarrow> client \<Rightarrow> world \<Rightarrow> json result" where
  "minthcm_post L url payload c w = request L url POST (Some payload) c w"

definition minthcm_patch :: "pylib \<Rightarrow> string \<Rightarrow> json \<Rightarrow> client \<Rightarrow> world \<Rightarrow> json result" where
  "minthcm_patch L url payload c w = request L url PATCH (Some payload) c w"

definition minthcm_delete :: "pylib \<Rightarrow> string \<Rightarrow> client \<Rightarrow> world \<Rightarrow> json result" where
  "minthcm_delete L url c w = request L url DELETE None c w"

text \<open>
  \<open>MintHCM._logout\<close>: the request is outside the \<open>try\<close> block, only the write to the token
  file is inside.
\<close>

definition logout :: "pylib \<Rightarrow> client \<Rightarrow> world \<Rightarrow> unit result" where
  "logout L c w =
     (case request L (baseurl c @ ''/logout'') POST None c w of
        (Inl e, c1, w1) \<Rightarrow> (Inl e, c1, w1)
      | (Inr j, c1, w1) \<Rightarrow>
          if token_path c1 \<noteq> [] then
            (case write_error w1 (token_path c1) of
               Some msg \<Rightarrow> (Inr (), c1, w1)
             | None \<Rightarrow>
                 (Inr (), c1, w1\<lparr>file_content := (file_content w1)(token_path c1 \<mapsto> [])\<rparr>))
          else (Inr (), c1, w1))"

section \<open>The module accessor\<close>

text \<open>
  A \<open>Module\<close> holds its name and a reference to the client; the client is passed to each
  operation with the world.
\<close>

text \<open>\<open>Module.create\<close>.\<close>

definition module_create ::
  "pylib \<Rightarrow> string \<Rightarrow> (string \<times> json) list \<Rightarrow> client \<Rightarrow> world \<Rightarrow> json result" where
  "module_create L module_name attributes c w =
     (let data = JObj [(''type'', JStr module_name), (''attributes'', JObj attributes)]
      in minthcm_post L (baseurl c @ ''/module'') data c w)"

text \<open>\<open>Module.get\<close>: the URL is built, then handed to \<open>MintHCM.get\<close>.\<close>

definition module_get ::
  "pylib \<Rightarrow> string \<Rightarrow> string list option \<Rightarrow> string option \<Rightarrow> string \<Rightarrow>
   (string \<times> fval) list \<Rightarrow> client \<Rightarrow> world \<Rightarrow> json result" where
  "module_get L module_name fields_arg sort_arg operator filters c w =
     (case get_url (baseurl c) module_name fields_arg sort_arg operator filters of
        Inl e \<Rightarrow> (Inl e, c, w)
      | Inr url \<Rightarrow> minthcm_get L url c w)"

section \<open>Example environments\<close>

text \<open>
  A small instance of the library functions, enough to run the client on the documents
  \<open>{}\<close> and \<open>{"data": null}\<close>, with a quoting function that leaves its argument alone.
\<close>

definition example_lib :: pylib where
  "example_lib =
     \<lparr>json_loads = (\<lambda>s. if s = ''{}'' then Some (JObj []) else None),
      json_loads_bytes = (\<lambda>s. if s = ''{}'' then Parsed (JObj []) else NotJSON),
      bytes_decode = (\<lambda>s. Some s),
      json_dumps = (\<lambda>j. if j = JObj [(''data'', JNull)] then ''{\"data\": null}'' else ''{}''),
      quote = (\<lambda>s. s),
      token_setter = (\<lambda>j. None),
      default_headers = Map.empty,
      bytes_repr = (\<lambda>s. s)\<rparr>"

text \<open>
  A serialiser in the format of \<open>json.dumps\<close>, for documents whose strings need no
  escaping, and the example library with it in place of the two-document one.
\<close>

fun render :: "json \<Rightarrow> string"
  and render_items :: "json list \<Rightarrow> string"
  and render_members :: "(string \<times> json) list \<Rightarrow> string" where
  "render JNull = ''null''"
| "render (JBool b) = (if b then ''true'' else ''false'')"
| "render (JNum i) = py_str (SInt i)"
| "render (JStr s) = [CHR 0x22] @ s @ [CHR 0x22]"
| "render (JArr xs) = ''['' @ render_items xs @ '']''"
| "render (JObj kvs) = ''{'' @ render_members kvs @ ''}''"
| "render_items [] = []"
| "render_items [x] = render x"
| "render_items (x # y # ys) = render x @ '', '' @ render_items (y # ys)"
| "render_members [] = []"
| "render_members [(k, v)] = [CHR 0x22] @ k @ [CHR 0x22] @ '': '' @ render v"
| "render_members ((k, v) # kv # kvs) =
     [CHR 0x22] @ k @ [CHR 0x22] @ '': '' @ render v @ '', '' @ render_members (kv # kvs)"

definition rendering_lib :: pylib where
  "rendering_lib = example_lib\<lparr>json_dumps := render\<rparr>"

definition example_client :: client where
  "example_client =
     \<lparr>baseurl = ''http://h/v1'', client_id = ''id'', client_secret = ''key'',
      token_path = ''t.json'', logout_on_exit = False, user_agent = ''ua'',
      session = \<lparr>token = JObj [], headers = Map.empty\<rparr>\<rparr>"

text \<open>A world with the given files, no call made yet, and the given behaviour of the session.\<close>

definition example_world ::
  "(string \<rightharpoonup> string) \<Rightarrow> (event list \<Rightarrow> response) \<Rightarrow> (event list \<Rightarrow> grant_outcome) \<Rightarrow> world" where
  "example_world files resp gr =
     \<lparr>file_content = files, read_error = Map.empty, write_error = Map.empty, calls = [],
      respond = resp, grant = gr, error_log = [], atexit = []\<rparr>"

section \<open>Properties of the query translation\<close>


lemma split_on_no_sep: "sep \<notin> set a \<Longrightarrow> split_on sep a = [a]"
  by (induction a) auto

lemma split_on_append_sep:
  "sep \<notin> set a \<Longrightarrow> split_on sep (a @ sep # b) = a # split_on sep b"
  by (induction a) (auto split: list.splits)

lemma split_on_two:
  "sep \<notin> set a \<Longrightarrow> sep \<notin> set b \<Longrightarrow> split_on sep (a @ sep # b) = [a, b]"
  by (simp add: split_on_append_sep split_on_no_sep)

lemma filter_loop_extends:
  "filter_loop fs acc = Inr r \<Longrightarrow> \<exists>t. r = acc @ t"
proof (induction fs arbitrary: acc)
  case Nil
  then show ?case by simp
next
  case (Cons p fs)
  obtain f v where p: "p = (f, v)" by (cases p)
  from Cons.prems p obtain s where "filter_loop fs (acc @ s) = Inr r"
    by (cases "filter_clause f v") simp_all
  from Cons.IH [OF this] obtain t where "r = (acc @ s) @ t" by blast
  then have "r = acc @ (s @ t)" by simp
  then show ?case by blast
qed

lemma filter_loop_member:
  assumes "filter_loop fs acc = Inr r" and "(f, v) \<in> set fs"
  shows "\<exists>s pre post. filter_clause f v = Inr s \<and> r = acc @ pre @ s @ post"
  using assms
proof (induction fs arbitrary: acc)
  case Nil
  then show ?case by simp
next
  case (Cons p fs)
  obtain f' v' where p: "p = (f', v')" by (cases p)
  from Cons.prems(1) p obtain s' where s': "filter_clause f' v' = Inr s'"
    and rest: "filter_loop fs (acc @ s') = Inr r"
    by (cases "filter_clause f' v'") simp_all
  show ?case
  proof (cases "(f, v) = (f', v')")
    case True
    from filter_loop_extends [OF rest] obtain t where "r = (acc @ s') @ t" by blast
    then have "r = acc @ [] @ s' @ t" by simp
    with True s' show ?thesis by blast
  next
    case False
    with Cons.prems(2) p have "(f, v) \<in> set fs" by auto
    from Cons.IH [OF rest this] obtain s pre post
      where "filter_clause f v = Inr s" and "r = (acc @ s') @ pre @ s @ post" by blast
    then have "filter_clause f v = Inr s \<and> r = acc @ (s' @ pre) @ s @ post" by simp
    then show ?thesis by blast
  qed
qed

lemma filter_loop_fails:
  assumes "(f, v) \<in> set fs" and "filter_clause f v = Inl e0"
  shows "\<exists>e f' v'. filter_loop fs acc = Inl e \<and> (f', v') \<in> set fs \<and> filter_clause f' v' = Inl e"
  using assms
proof (induction fs arbitrary: acc)
  case Nil
  then show ?case by simp
next
  case (Cons p fs)
  obtain f' v' where p: "p = (f', v')" by (cases p)
  show ?case
  proof (cases "filter_clause f' v'")
    case (Inl e)
    then have "filter_loop (p # fs) acc = Inl e" using p by simp
    with Inl p show ?thesis by auto
  next
    case (Inr s)
    with Cons.prems p have "(f, v) \<in> set fs" by auto
    from Cons.IH [OF this Cons.prems(2), of "acc @ s"] obtain e f2 v2
      where "filter_loop fs (acc @ s) = Inl e" "(f2, v2) \<in> set fs" "filter_clause f2 v2 = Inl e"
      by blast
    with Inr p show ?thesis by auto
  qed
qed


lemma get_url_Inr:
  assumes "get_url base module_name fields_arg sort_arg operator filters = Inr url"
  shows "\<exists>pre r post.
           filter_loop filters
             (''filter[operator]='' @
              (if operator \<noteq> ''and'' \<and> operator \<noteq> ''or'' then ''and'' else operator)) = Inr r \<and>
           url = pre @ r @ post"
proof -
  let ?acc = "''filter[operator]='' @
              (if operator \<noteq> ''and'' \<and> operator \<noteq> ''or'' then ''and'' else operator)"
  obtain r where r: "filter_loop filters ?acc = Inr r"
    using assms unfolding get_url_def Let_def
    by (cases "filter_loop filters ?acc") simp_all
  define fields_str where "fields_str =
     (case fields_arg of None \<Rightarrow> ''?''
      | Some fs \<Rightarrow> if fs \<noteq> [] then ''?fields['' @ module_name @ '']='' @ join '','' fs else ''?'')"
  define u where "u = base @ ''/module/'' @ module_name @ fields_str @ ''&''"
  have "url = u @ r \<or> (\<exists>s. url = u @ r @ ''&sort=-'' @ s)"
    using assms r unfolding get_url_def Let_def u_def fields_str_def
    by (auto split: option.splits if_splits)
  then have "\<exists>post. url = u @ r @ post" by auto
  with r show ?thesis by blast
qed

lemma sublist_drop_amp: "sublist (c # x) r \<Longrightarrow> sublist x r"
  unfolding sublist_def by (metis append_Cons append_Nil append.assoc)

lemma get_url_member:
  assumes "get_url base module_name fields_arg sort_arg operator filters = Inr url"
    and "(f, v) \<in> set filters"
  shows "\<exists>s. filter_clause f v = Inr s \<and> sublist s url"
proof -
  from get_url_Inr [OF assms(1)] obtain pre r post acc
    where r: "filter_loop filters acc = Inr r" and url: "url = pre @ r @ post" by blast
  from filter_loop_member [OF r assms(2)] obtain s p q
    where s: "filter_clause f v = Inr s" and "r = acc @ p @ s @ q" by blast
  with url have "url = (pre @ acc @ p) @ s @ (q @ post)" by simp
  then have "sublist s url" unfolding sublist_def by blast
  with s show ?thesis by blast
qed

text \<open>
  Claim C6. Whenever \<open>Module.get\<close> builds a URL, the URL contains
  \<open>filter[operator]=\<close> followed by the combinator: the supplied one when it is \<open>and\<close> or
  \<open>or\<close>, and \<open>and\<close> for every other value.
\<close>

theorem query_combinator:
  assumes "get_url base module_name fields_arg sort_arg operator filters = Inr url"
  shows "sublist (''filter[operator]='' @
                  (if operator = ''and'' \<or> operator = ''or'' then operator else ''and'')) url"
proof -
  from get_url_Inr [OF assms] obtain pre r post
    where r: "filter_loop filters
             (''filter[operator]='' @
              (if operator \<noteq> ''and'' \<and> operator \<noteq> ''or'' then ''and'' else operator)) = Inr r"
      and url: "url = pre @ r @ post" by blast
  from filter_loop_extends [OF r] obtain t where
    "r = (''filter[operator]='' @
          (if operator \<noteq> ''and'' \<and> operator \<noteq> ''or'' then ''and'' else operator)) @ t" by blast
  with url have "url = pre @ (''filter[operator]='' @
          (if operator = ''and'' \<or> operator = ''or'' then operator else ''and'')) @ (t @ post)"
    by auto
  then show ?thesis unfolding sublist_def by blast
qed

theorem query_combinator_witness:
  "get_url ''u'' ''E'' None None ''xor'' [] = Inr ''u/module/E?&filter[operator]=and'' \<and>
   sublist ''filter[operator]=and'' ''u/module/E?&filter[operator]=and''"
proof -
  have h: "get_url ''u'' ''E'' None None ''xor'' [] = Inr ''u/module/E?&filter[operator]=and''"
    by (simp add: get_url_def)
  show ?thesis using h query_combinator [OF h] by simp
qed

text \<open>
  Claim C4. A filter \<open>field -> {operator: "BETWEEN", value: "a,b"}\<close>, with no comma inside
  \<open>a\<close> or \<open>b\<close>, contributes exactly the text \<open>&filter[field][GT]=a&filter[field][LT]=b\<close>
  to the URL: the lower bound as \<open>GT\<close>, the upper bound as \<open>LT\<close>, and nothing else for
  this field.
\<close>

theorem query_between:
  assumes "get_url base module_name fields_arg sort_arg operator filters = Inr url"
    and "(field, Dict d) \<in> set filters"
    and "d ''operator'' = Some (SStr ''BETWEEN'')"
    and "d ''value'' = Some (SStr (a @ '','' @ b))"
    and "CHR '','' \<notin> set a" and "CHR '','' \<notin> set b"
  shows "filter_clause field (Dict d) =
           Inr (''&filter['' @ field @ ''][GT]='' @ a @ ''&filter['' @ field @ ''][LT]='' @ b) \<and>
         sublist (''filter['' @ field @ ''][GT]='' @ a) url \<and>
         sublist (''filter['' @ field @ ''][LT]='' @ b) url \<and>
         sublist (''&filter['' @ field @ ''][GT]='' @ a @ ''&filter['' @ field @ ''][LT]='' @ b) url"
proof -
  have sp: "split_on CHR '','' (a @ '','' @ b) = [a, b]"
    using split_on_two [OF assms(5,6)] by simp
  have cl: "filter_clause field (Dict d) =
           Inr (''&filter['' @ field @ ''][GT]='' @ a @ ''&filter['' @ field @ ''][LT]='' @ b)"
    using assms(3,4) sp by (simp add: dict_get_def)
  from get_url_member [OF assms(1,2)] cl
  have whole: "sublist (''&filter['' @ field @ ''][GT]='' @ a @ ''&filter['' @ field @ ''][LT]='' @ b) url"
    by auto
  then obtain p q where
    url: "url = p @ (''&filter['' @ field @ ''][GT]='' @ a @ ''&filter['' @ field @ ''][LT]='' @ b) @ q"
    unfolding sublist_def by blast
  have "url = (p @ ''&'') @ (''filter['' @ field @ ''][GT]='' @ a) @
              (''&filter['' @ field @ ''][LT]='' @ b @ q)"
    using url by simp
  then have lower: "sublist (''filter['' @ field @ ''][GT]='' @ a) url"
    unfolding sublist_def by blast
  have "url = (p @ ''&filter['' @ field @ ''][GT]='' @ a @ ''&'') @
              (''filter['' @ field @ ''][LT]='' @ b) @ q"
    using url by simp
  then have upper: "sublist (''filter['' @ field @ ''][LT]='' @ b) url"
    unfolding sublist_def by blast
  from cl lower upper whole show ?thesis by blast
qed

theorem query_between_witness:
  "sublist ''filter[age][GT]=18'' ''u/module/E?&filter[operator]=and&filter[age][GT]=18&filter[age][LT]=65'' \<and>
   sublist ''filter[age][LT]=65'' ''u/module/E?&filter[operator]=and&filter[age][GT]=18&filter[age][LT]=65'' \<and>
   filter_clause ''age'' (Dict [''operator'' \<mapsto> SStr ''BETWEEN'', ''value'' \<mapsto> SStr ''18,65'']) =
     Inr ''&filter[age][GT]=18&filter[age][LT]=65''"
proof -
  let ?d = "[''operator'' \<mapsto> SStr ''BETWEEN'', ''value'' \<mapsto> SStr ''18,65'']"
  have h1: "get_url ''u'' ''E'' None None ''and'' [(''age'', Dict ?d)] =
              Inr ''u/module/E?&filter[operator]=and&filter[age][GT]=18&filter[age][LT]=65''"
    by (simp add: get_url_def dict_get_def)
  have h2: "(''age'', Dict ?d) \<in> set [(''age'', Dict ?d)]" by simp
  have h3: "?d ''operator'' = Some (SStr ''BETWEEN'')" by simp
  have h4: "?d ''value'' = Some (SStr (''18'' @ '','' @ ''65''))" by simp
  have h5: "CHR '','' \<notin> set ''18''" by simp
  have h6: "CHR '','' \<notin> set ''65''" by simp
  show ?thesis using query_between [OF h1 h2 h3 h4 h5 h6] by (simp add: dict_get_def)
qed

lemma operators_lookup_error: "operators_lookup k = Inl e \<Longrightarrow> e = KeyError k"
  by (cases k) (auto split: option.splits)

lemma filter_clause_error:
  assumes "filter_clause f v = Inl e"
  shows "\<not> is_minthcm_error e"
proof (cases v)
  case (Plain x)
  with assms show ?thesis by simp
next
  case (Dict d)
  show ?thesis
  proof (cases "d ''operator''")
    case None
    with assms Dict show ?thesis by (auto simp: dict_get_def)
  next
    case (Some opr)
    show ?thesis
    proof (cases "opr = SStr ''BETWEEN''")
      case True
      with assms Dict Some show ?thesis
        by (auto simp: dict_get_def Let_def split: option.splits scalar.splits if_splits)
    next
      case False
      show ?thesis
      proof (cases "operators_lookup opr")
        case (Inl e')
        with assms Dict Some False have "e = e'" by (simp add: dict_get_def)
        with operators_lookup_error [OF Inl] show ?thesis by simp
      next
        case (Inr code)
        with assms Dict Some False show ?thesis
          by (auto simp: dict_get_def split: option.splits)
      qed
    qed
  qed
qed

lemma operators_table:
  "map_of operators ''='' = Some ''EQ'' \<and> map_of operators ''<>'' = Some ''NEQ'' \<and>
   map_of operators ''>'' = Some ''GT'' \<and> map_of operators ''>='' = Some ''GTE'' \<and>
   map_of operators ''<'' = Some ''LT'' \<and> map_of operators ''<='' = Some ''LTE'' \<and>
   map_of operators ''LIKE'' = Some ''LIKE'' \<and>
   map_of operators ''NOT LIKE'' = Some ''NOT_LIKE'' \<and>
   map_of operators ''IN'' = Some ''IN'' \<and> map_of operators ''NOT IN'' = Some ''NOT_IN''"
  unfolding operators_def by simp

lemma between_not_in_table: "map_of operators ''BETWEEN'' = None"
  unfolding operators_def by simp

text \<open>
  Claim C5. Whenever \<open>Module.get\<close> builds a URL: a filter whose value is a plain scalar
  appears in it as \<open>filter[field][EQ]=value\<close>, and a filter whose value is a comparison
  \<open>{operator, value}\<close> with an operator of the table appears as \<open>filter[field][CODE]=value\<close>,
  where the table maps \<open>=\<close> to \<open>EQ\<close>, \<open><>\<close> to \<open>NEQ\<close>, \<open>>\<close> to \<open>GT\<close>, \<open>>=\<close> to \<open>GTE\<close>,
  \<open><\<close> to \<open>LT\<close>, \<open><=\<close> to \<open>LTE\<close>, \<open>LIKE\<close> to \<open>LIKE\<close>, \<open>NOT LIKE\<close> to \<open>NOT_LIKE\<close>,
  \<open>IN\<close> to \<open>IN\<close> and \<open>NOT IN\<close> to \<open>NOT_IN\<close>. The value is written as \<open>str\<close> renders it.
\<close>

theorem query_scalar_and_operator:
  assumes "get_url base module_name fields_arg sort_arg operator filters = Inr url"
  shows "((field, Plain v) \<in> set filters \<longrightarrow>
            sublist (''filter['' @ field @ ''][EQ]='' @ py_str v) url) \<and>
         ((field, Dict d) \<in> set filters \<and> d ''operator'' = Some (SStr opr) \<and>
          d ''value'' = Some v \<and> map_of operators opr = Some code \<longrightarrow>
            sublist (''filter['' @ field @ '']['' @ code @ '']='' @ py_str v) url) \<and>
         (map_of operators ''='' = Some ''EQ'' \<and> map_of operators ''<>'' = Some ''NEQ'' \<and>
          map_of operators ''>'' = Some ''GT'' \<and> map_of operators ''>='' = Some ''GTE'' \<and>
          map_of operators ''<'' = Some ''LT'' \<and> map_of operators ''<='' = Some ''LTE'' \<and>
          map_of operators ''LIKE'' = Some ''LIKE'' \<and>
          map_of operators ''NOT LIKE'' = Some ''NOT_LIKE'' \<and>
          map_of operators ''IN'' = Some ''IN'' \<and> map_of operators ''NOT IN'' = Some ''NOT_IN'')"
proof (intro conjI impI)
  assume "(field, Plain v) \<in> set filters"
  from get_url_member [OF assms this]
  have "sublist (''&filter['' @ field @ ''][EQ]='' @ py_str v) url" by simp
  then show "sublist (''filter['' @ field @ ''][EQ]='' @ py_str v) url"
    using sublist_drop_amp by simp
next
  assume a: "(field, Dict d) \<in> set filters \<and> d ''operator'' = Some (SStr opr) \<and>
          d ''value'' = Some v \<and> map_of operators opr = Some code"
  have "opr \<noteq> ''BETWEEN''"
  proof
    assume "opr = ''BETWEEN''"
    with a between_not_in_table show False by simp
  qed
  with a have "filter_clause field (Dict d) =
                 Inr (''&filter['' @ field @ '']['' @ code @ '']='' @ py_str v)"
    by (simp add: dict_get_def)
  with get_url_member [OF assms, of field "Dict d"] a
  have "sublist (''&filter['' @ field @ '']['' @ code @ '']='' @ py_str v) url" by simp
  then show "sublist (''filter['' @ field @ '']['' @ code @ '']='' @ py_str v) url"
    using sublist_drop_amp by simp
qed (simp_all add: operators_table)

theorem query_scalar_and_operator_witness:
  "sublist ''filter[status][EQ]=active''
     ''u/module/E?&filter[operator]=and&filter[status][EQ]=active&filter[age][GT]=30'' \<and>
   sublist ''filter[age][GT]=30''
     ''u/module/E?&filter[operator]=and&filter[status][EQ]=active&filter[age][GT]=30''"
proof -
  let ?d = "[''operator'' \<mapsto> SStr ''>'', ''value'' \<mapsto> SInt 30]"
  let ?fs = "[(''status'', Plain (SStr ''active'')), (''age'', Dict ?d)]"
  have h1: "get_url ''u'' ''E'' None None ''and'' ?fs =
              Inr ''u/module/E?&filter[operator]=and&filter[status][EQ]=active&filter[age][GT]=30''"
    by (simp add: get_url_def dict_get_def operators_def digits.simps)
  have m1: "(''status'', Plain (SStr ''active'')) \<in> set ?fs" by simp
  have m2: "(''age'', Dict ?d) \<in> set ?fs \<and> ?d ''operator'' = Some (SStr ''>'') \<and>
            ?d ''value'' = Some (SInt 30) \<and> map_of operators ''>'' = Some ''GT''"
    by (simp add: operators_def)
  have d30: "digits 30 = ''30''" by (simp add: digits.simps)
  from query_scalar_and_operator [OF h1, where field = "''status''" and v = "SStr ''active''"] m1
  have c1: "sublist ''filter[status][EQ]=active''
     ''u/module/E?&filter[operator]=and&filter[status][EQ]=active&filter[age][GT]=30''"
    by simp
  from query_scalar_and_operator [OF h1, where field = "''age''" and d = ?d and opr = "''>''"
      and v = "SInt 30" and code = "''GT''"] m2 d30
  have c2: "sublist ''filter[age][GT]=30''
     ''u/module/E?&filter[operator]=and&filter[status][EQ]=active&filter[age][GT]=30''"
    by simp
  from c1 c2 show ?thesis by simp
qed

text \<open>
  Claim C1, as the code has it. A comparison whose operator is neither in the table nor
  \<open>BETWEEN\<close> raises \<open>KeyError\<close> for that operator, and a call of \<open>Module.get\<close> with such a
  filter fails while the URL is built: it returns the exception of a filter that could not
  be translated, which is a builtin exception and not one of the two classes of the
  library, and leaves the client and the world as they were, so no call is made on the
  session.
\<close>

theorem unknown_operator_fails:
  assumes "(field, Dict d) \<in> set filters"
    and "d ''operator'' = Some (SStr opr)"
    and "opr \<noteq> ''BETWEEN''"
    and "map_of operators opr = None"
  shows "filter_clause field (Dict d) = Inl (KeyError (SStr opr)) \<and>
         (\<exists>e f v. module_get L module_name fields_arg sort_arg operator filters c w = (Inl e, c, w) \<and>
                  (f, v) \<in> set filters \<and> filter_clause f v = Inl e \<and> \<not> is_minthcm_error e)"
proof -
  have cl: "filter_clause field (Dict d) = Inl (KeyError (SStr opr))"
    using assms(2,3,4) by (simp add: dict_get_def)
  let ?acc = "''filter[operator]='' @
              (if operator \<noteq> ''and'' \<and> operator \<noteq> ''or'' then ''and'' else operator)"
  from filter_loop_fails [OF assms(1) cl, of ?acc] obtain e f v
    where e: "filter_loop filters ?acc = Inl e" and m: "(f, v) \<in> set filters"
      and fc: "filter_clause f v = Inl e" by blast
  have "get_url (baseurl c) module_name fields_arg sort_arg operator filters = Inl e"
    using e unfolding get_url_def Let_def by simp
  then have "module_get L module_name fields_arg sort_arg operator filters c w = (Inl e, c, w)"
    by (simp add: module_get_def)
  with m fc filter_clause_error [OF fc] cl show ?thesis by blast
qed

theorem unknown_operator_fails_witness:
  "module_get example_lib ''E'' None None ''and''
     [(''age'', Dict [''operator'' \<mapsto> SStr ''~='', ''value'' \<mapsto> SStr ''3''])]
     example_client (example_world Map.empty (\<lambda>cs. Response 200 ''{}'') (\<lambda>cs. Granted (JObj []))) =
   (Inl (KeyError (SStr ''~='')), example_client,
    example_world Map.empty (\<lambda>cs. Response 200 ''{}'') (\<lambda>cs. Granted (JObj [])))"
proof -
  let ?d = "[''operator'' \<mapsto> SStr ''~='', ''value'' \<mapsto> SStr ''3'']"
  have h1: "(''age'', Dict ?d) \<in> set [(''age'', Dict ?d)]" by simp
  have h2: "?d ''operator'' = Some (SStr ''~='')" by simp
  have h3: "''~='' \<noteq> ''BETWEEN''" by simp
  have h4: "map_of operators ''~='' = None" by (simp add: operators_def)
  from unknown_operator_fails [OF h1 h2 h3 h4, of example_lib "''E''" None None "''and''" example_client
     "example_world Map.empty (\<lambda>cs. Response 200 ''{}'') (\<lambda>cs. Granted (JObj []))"]
  show ?thesis by (auto simp: dict_get_def operators_def)
qed

text \<open>
  Claim C1 as stated fails: with the operator \<open>~=\<close> the call raises \<open>KeyError\<close>, which is
  not a \<open>RequestError\<close>.
\<close>

theorem unknown_operator_counterexample:
  "fst (module_get example_lib ''E'' None None ''and''
     [(''age'', Dict [''operator'' \<mapsto> SStr ''~='', ''value'' \<mapsto> SStr ''3''])]
     example_client (example_world Map.empty (\<lambda>cs. Response 200 ''{}'') (\<lambda>cs. Granted (JObj []))))
   = Inl (KeyError (SStr ''~='')) \<and> \<not> is_request_error (KeyError (SStr ''~=''))"
  by (simp add: module_get_def get_url_def dict_get_def operators_def)

section \<open>Properties of the session manager\<close>

lemma token_url_butlast: "token_url base = butlast (butlast base) @ ''access_token''"
  by (simp add: token_url_def butlast_conv_take numeral_2_eq_2)

lemma rstrip_slash_no_slash: "c \<noteq> CHR ''/'' \<Longrightarrow> rstrip_slash (s @ [c]) = s @ [c]"
  by (simp add: rstrip_slash_def)

lemma rstrip_slash_logout: "rstrip_slash (b @ ''/logout'') = b @ ''/logout''"
  using rstrip_slash_no_slash [of "CHR ''t''" "b @ ''/logou''"] by simp

lemma rstrip_slash_module: "rstrip_slash (b @ ''/module'') = b @ ''/module''"
  using rstrip_slash_no_slash [of "CHR ''e''" "b @ ''/modul''"] by simp

lemma save_token_effect:
  assumes "save_token L c w = (r, c', w')"
  shows "c' = c \<and> calls w' = calls w \<and> respond w' = respond w \<and> grant w' = grant w \<and>
         write_error w' = write_error w \<and> read_error w' = read_error w \<and>
         error_log w' = error_log w \<and> atexit w' = atexit w \<and>
         (r = Inr () \<longleftrightarrow> token_path c = [] \<or> write_error w (token_path c) = None) \<and>
         (\<forall>e. r = Inl e \<longrightarrow> w' = w)"
  using assms unfolding save_token_def by (auto split: if_splits option.splits)

lemma refresh_token_effect:
  assumes "refresh_token L c w = (r, c', w')"
  shows "calls w' = calls w @ [FetchToken (token_url (baseurl c)) (client_id c) (client_secret c)] \<and>
         respond w' = respond w \<and> grant w' = grant w \<and>
         write_error w' = write_error w \<and> read_error w' = read_error w \<and>
         error_log w' = error_log w \<and> atexit w' = atexit w \<and>
         baseurl c' = baseurl c \<and> client_id c' = client_id c \<and>
         client_secret c' = client_secret c \<and> token_path c' = token_path c \<and>
         logout_on_exit c' = logout_on_exit c"
proof -
  let ?w1 = "w\<lparr>calls := calls w @
                   [FetchToken (token_url (baseurl c)) (client_id c) (client_secret c)]\<rparr>"
  show ?thesis
  proof (cases "grant w (calls ?w1)")
    case (Granted tok)
    let ?c1 = "c\<lparr>session := (session c)\<lparr>token := tok\<rparr>\<rparr>"
    obtain r1 c1 w1 where s: "save_token L ?c1 ?w1 = (r1, c1, w1)" by (cases "save_token L ?c1 ?w1")
    from save_token_effect [OF s] assms Granted s show ?thesis
      unfolding refresh_token_def Let_def by (cases r1) auto
  next
    case InvalidClient
    with assms show ?thesis unfolding refresh_token_def Let_def by auto
  next
    case CustomOAuth2
    with assms show ?thesis unfolding refresh_token_def Let_def by auto
  next
    case (FetchRaised msg)
    with assms show ?thesis unfolding refresh_token_def Let_def by auto
  qed
qed

lemma refresh_token_result:
  assumes "refresh_token L c w = (r, c', w')"
  shows "(r = Inr () \<longleftrightarrow>
           (\<exists>tok. grant w (calls w @
               [FetchToken (token_url (baseurl c)) (client_id c) (client_secret c)]) = Granted tok) \<and>
           (token_path c = [] \<or> write_error w (token_path c) = None)) \<and>
         (\<forall>e. r = Inl e \<longrightarrow> is_minthcm_error e)"
proof -
  let ?w1 = "w\<lparr>calls := calls w @
                   [FetchToken (token_url (baseurl c)) (client_id c) (client_secret c)]\<rparr>"
  show ?thesis
  proof (cases "grant w (calls ?w1)")
    case (Granted tok)
    let ?c1 = "c\<lparr>session := (session c)\<lparr>token := tok\<rparr>\<rparr>"
    obtain r1 c1 w1 where s: "save_token L ?c1 ?w1 = (r1, c1, w1)" by (cases "save_token L ?c1 ?w1")
    from save_token_effect [OF s] assms Granted s show ?thesis
      unfolding refresh_token_def Let_def by (cases r1) auto
  next
    case InvalidClient
    with assms show ?thesis unfolding refresh_token_def Let_def by auto
  next
    case CustomOAuth2
    with assms show ?thesis unfolding refresh_token_def Let_def by auto
  next
    case (FetchRaised msg)
    with assms show ?thesis unfolding refresh_token_def Let_def by auto
  qed
qed


lemma attempts_last:
  assumes "attempts L m u d [Suc n] c w = (r, c', w')"
  shows "c' = c \<and>
         calls w' = calls w @ [Request m u (if m = GET \<or> m = DELETE then None else Some d)] \<and>
         respond w' = respond w \<and> grant w' = grant w \<and> write_error w' = write_error w \<and>
         read_error w' = read_error w \<and> file_content w' = file_content w \<and>
         atexit w' = atexit w"
  using assms
  by (auto simp: Let_def decode_failure_def
           split: response.splits if_splits option.splits sum.splits loads_result.splits)

lemma attempts_last_401:
  assumes "respond w (calls w @ [Request m u (if m = GET \<or> m = DELETE then None else Some d)]) =
             Response 401 body"
  shows "fst (attempts L m u d [Suc n] c w) =
           Inl (AuthenticationError ''authentication failed - token rejected'' (Some 401) (JStr []))"
  using assms by (simp add: Let_def)

lemma attempts_first_plain:
  assumes "attempts L m u d (0 # rest) c w = (r, c', w')"
    and "respond w (calls w @ [Request m u (if m = GET \<or> m = DELETE then None else Some d)]) \<noteq> TokenExpired"
    and "\<forall>body. respond w (calls w @ [Request m u (if m = GET \<or> m = DELETE then None else Some d)]) \<noteq>
            Response 401 body"
  shows "c' = c \<and>
         calls w' = calls w @ [Request m u (if m = GET \<or> m = DELETE then None else Some d)] \<and>
         respond w' = respond w \<and> grant w' = grant w \<and> write_error w' = write_error w \<and>
         read_error w' = read_error w \<and> file_content w' = file_content w \<and>
         atexit w' = atexit w"
  using assms
  by (auto simp: Let_def decode_failure_def
           split: response.splits if_splits option.splits sum.splits loads_result.splits)

lemma attempts_first_ok:
  assumes "respond w (calls w @ [Request m u (if m = GET \<or> m = DELETE then None else Some d)]) =
             Response sc body" and "sc < 400" and "json_loads_bytes L body = Parsed j"
  shows "attempts L m u d (0 # rest) c w =
           (Inr j, c, w\<lparr>calls := calls w @
               [Request m u (if m = GET \<or> m = DELETE then None else Some d)]\<rparr>)"
  using assms by (simp add: Let_def)

lemma attempts_first_retry:
  assumes "respond w (calls w @ [Request m u (if m = GET \<or> m = DELETE then None else Some d)]) = TokenExpired \<or>
           (\<exists>body. respond w (calls w @ [Request m u (if m = GET \<or> m = DELETE then None else Some d)]) =
              Response 401 body)"
  shows "attempts L m u d (0 # rest) c w =
           (case refresh_token L c
                   (w\<lparr>calls := calls w @
                       [Request m u (if m = GET \<or> m = DELETE then None else Some d)]\<rparr>) of
              (Inl e, c2, w2) \<Rightarrow> (Inl e, c2, w2)
            | (Inr x, c2, w2) \<Rightarrow> attempts L m u d rest c2 w2)"
  using assms by (auto simp: Let_def)


lemma attempts_two_retry:
  fixes L m u d c w
  defines "req \<equiv> Request m u (if m = GET \<or> m = DELETE then None else Some d)"
    and "fetch \<equiv> FetchToken (token_url (baseurl c)) (client_id c) (client_secret c)"
  assumes run: "attempts L m u d [0, Suc 0] c w = (r, c', w')"
    and trig: "respond w (calls w @ [req]) = TokenExpired \<or>
               (\<exists>body. respond w (calls w @ [req]) = Response 401 body)"
  shows "(if (\<exists>tok. grant w (calls w @ [req, fetch]) = Granted tok) \<and>
             (token_path c = [] \<or> write_error w (token_path c) = None)
          then calls w' = calls w @ [req, fetch, req] \<and>
               ((\<exists>body. respond w (calls w @ [req, fetch, req]) = Response 401 body) \<longrightarrow>
                  r = Inl (AuthenticationError ''authentication failed - token rejected''
                            (Some 401) (JStr [])))
          else calls w' = calls w @ [req, fetch] \<and> (\<exists>e. r = Inl e \<and> is_minthcm_error e)) \<and>
         baseurl c' = baseurl c \<and> client_id c' = client_id c \<and>
         client_secret c' = client_secret c \<and> token_path c' = token_path c \<and>
         logout_on_exit c' = logout_on_exit c \<and>
         respond w' = respond w \<and> grant w' = grant w \<and> write_error w' = write_error w \<and>
         read_error w' = read_error w \<and> atexit w' = atexit w"
proof -
  let ?w1 = "w\<lparr>calls := calls w @ [req]\<rparr>"
  obtain rr c2 w2 where rf: "refresh_token L c ?w1 = (rr, c2, w2)"
    by (cases "refresh_token L c ?w1")
  from refresh_token_effect [OF rf]
  have eff: "calls w2 = calls w @ [req, fetch]" "respond w2 = respond w" "grant w2 = grant w"
    "write_error w2 = write_error w" "read_error w2 = read_error w" "atexit w2 = atexit w"
    "baseurl c2 = baseurl c" "client_id c2 = client_id c" "client_secret c2 = client_secret c"
    "token_path c2 = token_path c" "logout_on_exit c2 = logout_on_exit c"
    by (simp_all add: fetch_def)
  from refresh_token_result [OF rf]
  have ok: "rr = Inr () \<longleftrightarrow>
              (\<exists>tok. grant w (calls w @ [req, fetch]) = Granted tok) \<and>
              (token_path c = [] \<or> write_error w (token_path c) = None)"
    and bad: "\<forall>e. rr = Inl e \<longrightarrow> is_minthcm_error e"
    by (simp_all add: fetch_def)
  have step: "attempts L m u d [0, Suc 0] c w =
           (case refresh_token L c ?w1 of
              (Inl e, c2, w2) \<Rightarrow> (Inl e, c2, w2)
            | (Inr x, c2, w2) \<Rightarrow> attempts L m u d [Suc 0] c2 w2)"
    using trig unfolding req_def by (rule attempts_first_retry)
  show ?thesis
  proof (cases rr)
    case (Inl e)
    with step rf run have "r = Inl e" "c' = c2" "w' = w2" by simp_all
    with Inl ok bad eff show ?thesis by auto
  next
    case (Inr x)
    with step rf run have last: "attempts L m u d [Suc 0] c2 w2 = (r, c', w')" by simp
    from attempts_last [OF last] eff
    have fin: "c' = c2" "calls w' = calls w @ [req, fetch, req]" "respond w' = respond w"
      "grant w' = grant w" "write_error w' = write_error w" "read_error w' = read_error w"
      "atexit w' = atexit w"
      by (simp_all add: req_def)
    have second: "(\<exists>body. respond w (calls w @ [req, fetch, req]) = Response 401 body) \<longrightarrow>
                  r = Inl (AuthenticationError ''authentication failed - token rejected''
                            (Some 401) (JStr []))"
    proof
      assume "\<exists>body. respond w (calls w @ [req, fetch, req]) = Response 401 body"
      then obtain body where "respond w2 (calls w2 @ [req]) = Response 401 body"
        using eff by auto
      from attempts_last_401 [OF this [unfolded req_def], of L 0 c2] last
      show "r = Inl (AuthenticationError ''authentication failed - token rejected''
                            (Some 401) (JStr []))" by simp
    qed
    from Inr have "rr = Inr ()" by simp
    with ok fin second eff show ?thesis by auto
  qed
qed

lemma request_attempts:
  "request L url m p c w =
     attempts L m (quote L (rstrip_slash url))
       (json_dumps L (JObj [(''data'', case p of None \<Rightarrow> JNull | Some x \<Rightarrow> x)])) [0, Suc 0] c w"
  by (simp add: request_def Let_def)

lemma request_effect:
  fixes L url m p c w
  defines "req \<equiv> Request m (quote L (rstrip_slash url))
                   (if m = GET \<or> m = DELETE then None
                    else Some (json_dumps L
                           (JObj [(''data'', case p of None \<Rightarrow> JNull | Some x \<Rightarrow> x)])))"
    and "fetch \<equiv> FetchToken (token_url (baseurl c)) (client_id c) (client_secret c)"
  assumes run: "request L url m p c w = (r, c', w')"
  shows "(calls w' = calls w @ [req] \<or> calls w' = calls w @ [req, fetch] \<or>
          calls w' = calls w @ [req, fetch, req]) \<and>
         baseurl c' = baseurl c \<and> client_id c' = client_id c \<and>
         client_secret c' = client_secret c \<and> token_path c' = token_path c \<and>
         logout_on_exit c' = logout_on_exit c \<and>
         respond w' = respond w \<and> grant w' = grant w \<and> write_error w' = write_error w \<and>
         read_error w' = read_error w \<and> atexit w' = atexit w"
proof -
  let ?u = "quote L (rstrip_slash url)"
  let ?d = "json_dumps L (JObj [(''data'', case p of None \<Rightarrow> JNull | Some x \<Rightarrow> x)])"
  have run': "attempts L m ?u ?d [0, Suc 0] c w = (r, c', w')"
    using run by (simp add: request_attempts)
  show ?thesis
  proof (cases "respond w (calls w @ [req]) = TokenExpired \<or>
               (\<exists>body. respond w (calls w @ [req]) = Response 401 body)")
    case True
    from attempts_two_retry [OF run' True [unfolded req_def]]
    show ?thesis unfolding req_def fetch_def by (auto split: if_splits)
  next
    case False
    then have "respond w (calls w @ [req]) \<noteq> TokenExpired"
      and "\<forall>body. respond w (calls w @ [req]) \<noteq> Response 401 body" by auto
    from attempts_first_plain [OF run' this [unfolded req_def]]
    show ?thesis by (simp add: req_def)
  qed
qed

lemma request_ok:
  assumes "respond w (calls w @ [Request m (quote L (rstrip_slash url))
                   (if m = GET \<or> m = DELETE then None
                    else Some (json_dumps L
                           (JObj [(''data'', case p of None \<Rightarrow> JNull | Some x \<Rightarrow> x)])))]) =
             Response sc body" and "sc < 400" and "json_loads_bytes L body = Parsed j"
  shows "request L url m p c w =
           (Inr j, c, w\<lparr>calls := calls w @ [Request m (quote L (rstrip_slash url))
                   (if m = GET \<or> m = DELETE then None
                    else Some (json_dumps L
                           (JObj [(''data'', case p of None \<Rightarrow> JNull | Some x \<Rightarrow> x)])))]\<rparr>)"
  unfolding request_attempts using assms by (rule attempts_first_ok)

text \<open>
  Claim C2, as the code has it. A call of \<open>_request\<close> makes the request once; it makes a
  second call on the session, the token refresh, only when the first attempt raised
  \<open>TokenExpiredError\<close> or was answered with status 401, and a third one, the same request
  again, only when that refresh succeeded. So when the first attempt yields 401 there is
  exactly one refresh; if the refresh succeeds (a token is granted and can be saved) there
  is exactly one retry of the same request, and a 401 on the retry raises
  \<open>AuthenticationError\<close> with code 401 and nothing more is sent; if the refresh fails, its
  error is raised and the request is not retried.
\<close>

theorem dispatch_retry:
  fixes L url m payload c w
  defines "req \<equiv> Request m (quote L (rstrip_slash url))
                   (if m = GET \<or> m = DELETE then None
                    else Some (json_dumps L
                           (JObj [(''data'', case payload of None \<Rightarrow> JNull | Some p \<Rightarrow> p)])))"
    and "fetch \<equiv> FetchToken (butlast (butlast (baseurl c)) @ ''access_token'')
                     (client_id c) (client_secret c)"
  assumes run: "request L url m payload c w = (r, c', w')"
  shows "((\<exists>body. respond w (calls w @ [req]) = Response 401 body) \<longrightarrow>
            (if (\<exists>tok. grant w (calls w @ [req, fetch]) = Granted tok) \<and>
                (token_path c = [] \<or> write_error w (token_path c) = None)
             then calls w' = calls w @ [req, fetch, req] \<and>
                  ((\<exists>body. respond w (calls w @ [req, fetch, req]) = Response 401 body) \<longrightarrow>
                     r = Inl (AuthenticationError ''authentication failed - token rejected''
                               (Some 401) (JStr [])))
             else calls w' = calls w @ [req, fetch] \<and> (\<exists>e. r = Inl e \<and> is_minthcm_error e))) \<and>
         (calls w' = calls w @ [req] \<or> calls w' = calls w @ [req, fetch] \<or>
          calls w' = calls w @ [req, fetch, req]) \<and>
         (calls w' \<noteq> calls w @ [req] \<longrightarrow>
            respond w (calls w @ [req]) = TokenExpired \<or>
            (\<exists>body. respond w (calls w @ [req]) = Response 401 body))"
proof -
  let ?u = "quote L (rstrip_slash url)"
  let ?d = "json_dumps L (JObj [(''data'', case payload of None \<Rightarrow> JNull | Some p \<Rightarrow> p)])"
  have run': "attempts L m ?u ?d [0, Suc 0] c w = (r, c', w')"
    using run by (simp add: request_attempts)
  have fetch': "fetch = FetchToken (token_url (baseurl c)) (client_id c) (client_secret c)"
    by (simp add: fetch_def token_url_butlast)
  show ?thesis
  proof (cases "respond w (calls w @ [req]) = TokenExpired \<or>
               (\<exists>body. respond w (calls w @ [req]) = Response 401 body)")
    case True
    from attempts_two_retry [OF run' True [unfolded req_def]]
    have "if (\<exists>tok. grant w (calls w @ [req, fetch]) = Granted tok) \<and>
             (token_path c = [] \<or> write_error w (token_path c) = None)
          then calls w' = calls w @ [req, fetch, req] \<and>
               ((\<exists>body. respond w (calls w @ [req, fetch, req]) = Response 401 body) \<longrightarrow>
                  r = Inl (AuthenticationError ''authentication failed - token rejected''
                            (Some 401) (JStr [])))
          else calls w' = calls w @ [req, fetch] \<and> (\<exists>e. r = Inl e \<and> is_minthcm_error e)"
      unfolding req_def fetch' by blast
    with True show ?thesis by (auto split: if_splits)
  next
    case False
    then have "respond w (calls w @ [req]) \<noteq> TokenExpired"
      and "\<forall>body. respond w (calls w @ [req]) \<noteq> Response 401 body" by auto
    from attempts_first_plain [OF run' this [unfolded req_def]]
    have "calls w' = calls w @ [req]" by (simp add: req_def)
    with False show ?thesis by auto
  qed
qed

theorem dispatch_retry_witness:
  "calls (snd (snd (request example_lib ''u'' GET None example_client
            (example_world Map.empty (\<lambda>cs. Response 401 []) (\<lambda>cs. Granted (JObj [])))))) =
     [Request GET ''u'' None, FetchToken ''http://h/access_token'' ''id'' ''key'',
      Request GET ''u'' None] \<and>
   fst (request example_lib ''u'' GET None example_client
          (example_world Map.empty (\<lambda>cs. Response 401 []) (\<lambda>cs. Granted (JObj [])))) =
     Inl (AuthenticationError ''authentication failed - token rejected'' (Some 401) (JStr []))"
proof -
  let ?W = "example_world Map.empty (\<lambda>cs. Response 401 []) (\<lambda>cs. Granted (JObj []))"
  let ?X = "request example_lib ''u'' GET None example_client ?W"
  have run: "request example_lib ''u'' GET None example_client ?W =
               (fst ?X, fst (snd ?X), snd (snd ?X))" by simp
  from dispatch_retry [OF run]
  show ?thesis
    by (simp add: example_lib_def example_client_def example_world_def rstrip_slash_def)
qed

text \<open>
  Claim C2 as stated fails: the first attempt yields 401, the token endpoint rejects the
  client, and the request is not sent a second time.
\<close>

theorem dispatch_retry_counterexample:
  "respond (example_world Map.empty (\<lambda>cs. Response 401 []) (\<lambda>cs. InvalidClient))
     (calls (example_world Map.empty (\<lambda>cs. Response 401 []) (\<lambda>cs. InvalidClient)) @
      [Request GET ''u'' None]) = Response 401 [] \<and>
   calls (snd (snd (request example_lib ''u'' GET None example_client
            (example_world Map.empty (\<lambda>cs. Response 401 []) (\<lambda>cs. InvalidClient))))) =
     [Request GET ''u'' None, FetchToken ''http://h/access_token'' ''id'' ''key''] \<and>
   fst (request example_lib ''u'' GET None example_client
          (example_world Map.empty (\<lambda>cs. Response 401 []) (\<lambda>cs. InvalidClient))) =
     Inl (AuthenticationError ''invalid API client ID or secret'' None (JStr []))"
  by (simp add: request_def Let_def refresh_token_def token_url_def example_lib_def
        example_client_def example_world_def rstrip_slash_def)

lemma load_token_effect:
  assumes "load_token L c w = (r, c', w')"
  shows "w' = w \<and> baseurl c' = baseurl c \<and> client_id c' = client_id c \<and>
         client_secret c' = client_secret c \<and> token_path c' = token_path c \<and>
         logout_on_exit c' = logout_on_exit c"
  using assms unfolding load_token_def Let_def
  by (auto split: if_splits option.splits)

lemma login_unfold:
  "login L c w =
     (case (let c1 = c\<lparr>session := new_session L c\<rparr> in
            if token_path c1 = [] then refresh_token L c1 w
            else case load_token L c1 w of
                   (Inl e, c2, w2) \<Rightarrow> (Inl e, c2, w2)
                 | (Inr loaded, c2, w2) \<Rightarrow>
                     if loaded = Some True then (Inr (), c2, w2)
                     else refresh_token L c2 w2) of
        (Inl e, c3, w3) \<Rightarrow> (Inl e, c3, w3)
      | (Inr u, c3, w3) \<Rightarrow>
          (Inr (), c3,
           if logout_on_exit c3 then w3\<lparr>atexit := atexit w3 @ [LogoutHook]\<rparr> else w3))"
  by (simp add: login_def has_OAuth2Session_attr_def)

lemma login_finish:
  assumes "(case X of
              (Inl e, c3, w3) \<Rightarrow> (Inl e, c3, w3)
            | (Inr u, c3, w3) \<Rightarrow>
                (Inr (), c3,
                 if logout_on_exit c3 then w3\<lparr>atexit := atexit w3 @ [LogoutHook]\<rparr> else w3)) =
           (r, c', w')"
  shows "r = fst X \<and> c' = fst (snd X) \<and> calls w' = calls (snd (snd X)) \<and>
         file_content w' = file_content (snd (snd X))"
proof -
  obtain rx cx wx where X: "X = (rx, cx, wx)" by (cases X)
  with assms show ?thesis by (cases rx) (auto split: if_splits)
qed

lemma login_fresh:
  assumes "token_path c \<noteq> []" and "read_error w (token_path c) = None"
    and "file_content w (token_path c) = None \<or>
         (\<exists>text. file_content w (token_path c) = Some text \<and>
                 (strip text = [] \<or> json_loads L (strip text) = None))"
  shows "login L c w =
     (case refresh_token L (c\<lparr>session := new_session L c\<rparr>) w of
        (Inl e, c3, w3) \<Rightarrow> (Inl e, c3, w3)
      | (Inr u, c3, w3) \<Rightarrow>
          (Inr (), c3,
           if logout_on_exit c3 then w3\<lparr>atexit := atexit w3 @ [LogoutHook]\<rparr> else w3))"
proof -
  have "load_token L (c\<lparr>session := new_session L c\<rparr>) w =
          (Inr (Some False), c\<lparr>session := new_session L c\<rparr>, w) \<or>
        load_token L (c\<lparr>session := new_session L c\<rparr>) w =
          (Inr None, c\<lparr>session := new_session L c\<rparr>, w)"
    using assms unfolding load_token_def Let_def by auto
  then show ?thesis using assms(1) unfolding login_unfold Let_def by auto
qed

lemma login_loaded:
  assumes "token_path c \<noteq> []" and "read_error w (token_path c) = None"
    and "file_content w (token_path c) = Some text" and "strip text \<noteq> []"
    and "json_loads L (strip text) = Some j" and "token_setter L j = None"
  shows "login L c w =
           (Inr (), c\<lparr>session := (new_session L c)\<lparr>token := j\<rparr>\<rparr>,
            if logout_on_exit c then w\<lparr>atexit := atexit w @ [LogoutHook]\<rparr> else w)"
proof -
  have "load_token L (c\<lparr>session := new_session L c\<rparr>) w =
          (Inr (Some True), c\<lparr>session := (new_session L c)\<lparr>token := j\<rparr>\<rparr>, w)"
    using assms unfolding load_token_def Let_def by simp
  then show ?thesis using assms(1) unfolding login_unfold Let_def by simp
qed

lemma login_calls:
  assumes "login L c w = (r, c', w')"
  shows "calls w' = calls w \<or>
         calls w' = calls w @ [FetchToken (token_url (baseurl c)) (client_id c) (client_secret c)]"
proof -
  let ?c1 = "c\<lparr>session := new_session L c\<rparr>"
  let ?X = "if token_path ?c1 = [] then refresh_token L ?c1 w
            else case load_token L ?c1 w of
                   (Inl e, c2, w2) \<Rightarrow> (Inl e, c2, w2)
                 | (Inr loaded, c2, w2) \<Rightarrow>
                     if loaded = Some True then (Inr (), c2, w2)
                     else refresh_token L c2 w2"
  from assms have "calls w' = calls (snd (snd ?X))"
    using login_finish [of ?X r c' w'] unfolding login_unfold Let_def by simp
  moreover have "calls (snd (snd ?X)) = calls w \<or>
         calls (snd (snd ?X)) =
           calls w @ [FetchToken (token_url (baseurl c)) (client_id c) (client_secret c)]"
  proof (cases "token_path ?c1 = []")
    case True
    obtain rr c2 w2 where rf: "refresh_token L ?c1 w = (rr, c2, w2)"
      by (cases "refresh_token L ?c1 w")
    from refresh_token_effect [OF rf] True rf show ?thesis by simp
  next
    case False
    obtain rl c2 w2 where ld: "load_token L ?c1 w = (rl, c2, w2)"
      by (cases "load_token L ?c1 w")
    from load_token_effect [OF ld]
    have same: "w2 = w" "baseurl c2 = baseurl c" "client_id c2 = client_id c"
      "client_secret c2 = client_secret c" by simp_all
    obtain rr c3 w3 where rf: "refresh_token L c2 w = (rr, c3, w3)"
      by (cases "refresh_token L c2 w")
    from refresh_token_effect [OF rf] same
    have "calls w3 = calls w @ [FetchToken (token_url (baseurl c)) (client_id c) (client_secret c)]"
      by simp
    with False ld rf same show ?thesis by (cases rl) (auto split: if_splits)
  qed
  ultimately show ?thesis by simp
qed

text \<open>
  Claim C3, as the code has it. \<open>_logout\<close> first sends a POST to \<open>{base}/logout\<close> through
  \<open>_request\<close>. If that call raises, \<open>_logout\<close> raises the same error and does not touch
  the token file. If it returns, \<open>_logout\<close> returns normally whatever happens next: with
  a token path set and the file writable, the file is left empty; when opening the file
  fails, the error is swallowed and nothing else changes.
\<close>

theorem logout_behaviour:
  assumes run: "logout L c w = (r, c', w')"
    and rq: "request L (baseurl c @ ''/logout'') POST None c w = (rq, c1, w1)"
  shows "(\<exists>rest. calls w' = calls w @
              Request POST (quote L (baseurl c @ ''/logout''))
                (Some (json_dumps L (JObj [(''data'', JNull)]))) # rest) \<and>
         (\<forall>e. rq = Inl e \<longrightarrow> r = Inl e \<and> c' = c1 \<and> w' = w1) \<and>
         (\<forall>j. rq = Inr j \<longrightarrow> r = Inr () \<and> c' = c1 \<and>
              (if token_path c \<noteq> [] \<and> write_error w (token_path c) = None
               then w' = w1\<lparr>file_content := (file_content w1)(token_path c \<mapsto> [])\<rparr>
               else w' = w1))"
proof -
  from request_effect [OF rq]
  have eff: "token_path c1 = token_path c" "write_error w1 = write_error w"
    and cs: "\<exists>rest. calls w1 = calls w @
              Request POST (quote L (baseurl c @ ''/logout''))
                (Some (json_dumps L (JObj [(''data'', JNull)]))) # rest"
    by (auto simp: rstrip_slash_logout)
  show ?thesis
  proof (cases rq)
    case (Inl e)
    with run rq have "r = Inl e" "c' = c1" "w' = w1" by (simp_all add: logout_def)
    with Inl cs show ?thesis by simp
  next
    case (Inr j)
    with run rq eff have "r = Inr ()" "c' = c1"
      and w': "if token_path c \<noteq> [] \<and> write_error w (token_path c) = None
               then w' = w1\<lparr>file_content := (file_content w1)(token_path c \<mapsto> [])\<rparr>
               else w' = w1"
      by (auto simp: logout_def split: option.splits if_splits)
    moreover from w' cs have "\<exists>rest. calls w' = calls w @
              Request POST (quote L (baseurl c @ ''/logout''))
                (Some (json_dumps L (JObj [(''data'', JNull)]))) # rest"
      by (auto split: if_splits)
    ultimately show ?thesis using Inr by simp
  qed
qed

theorem logout_behaviour_witness:
  "fst (logout example_lib example_client
          ((example_world Map.empty (\<lambda>cs. Response 200 ''{}'') (\<lambda>cs. Granted (JObj [])))
             \<lparr>write_error := [''t.json'' \<mapsto> ''denied'']\<rparr>)) = Inr ()"
proof -
  let ?W = "(example_world Map.empty (\<lambda>cs. Response 200 ''{}'') (\<lambda>cs. Granted (JObj [])))
             \<lparr>write_error := [''t.json'' \<mapsto> ''denied'']\<rparr>"
  let ?X = "logout example_lib example_client ?W"
  let ?R = "request example_lib (baseurl example_client @ ''/logout'') POST None example_client ?W"
  have run: "logout example_lib example_client ?W = (fst ?X, fst (snd ?X), snd (snd ?X))"
    by simp
  have rok: "?R = (Inr (JObj []), example_client,
                   ?W\<lparr>calls := [Request POST ''http://h/v1/logout'' (Some ''{\"data\": null}'')]\<rparr>)"
    by (simp add: request_def Let_def example_lib_def example_client_def example_world_def
          rstrip_slash_def)
  from logout_behaviour [OF run rok]
  show ?thesis by simp
qed

text \<open>
  Claim C3 as stated fails: when the server answers the POST to \<open>/logout\<close> with status
  500, \<open>_logout\<close> raises \<open>RequestError\<close>.
\<close>

theorem logout_counterexample:
  "fst (logout example_lib example_client
          (example_world Map.empty (\<lambda>cs. Response 500 ''{}'') (\<lambda>cs. Granted (JObj [])))) =
     Inl (RequestError ''request failed'' (Some 500) (JStr []))"
  by (simp add: logout_def request_def Let_def error_details_def example_lib_def
        example_client_def example_world_def rstrip_slash_def)

lemma attempts_last_ok:
  assumes "respond w (calls w @ [Request m u (if m = GET \<or> m = DELETE then None else Some d)]) =
             Response sc body" and "sc < 400" and "json_loads_bytes L body = Parsed j"
  shows "fst (attempts L m u d [Suc n] c w) = Inr j"
  using assms by (simp add: Let_def)

lemma attempts_two_retry_ok:
  fixes L m u d c w
  defines "req \<equiv> Request m u (if m = GET \<or> m = DELETE then None else Some d)"
    and "fetch \<equiv> FetchToken (token_url (baseurl c)) (client_id c) (client_secret c)"
  assumes run: "attempts L m u d [0, Suc 0] c w = (r, c', w')"
    and trig: "respond w (calls w @ [req]) = TokenExpired \<or>
               (\<exists>body. respond w (calls w @ [req]) = Response 401 body)"
    and ok: "(\<exists>tok. grant w (calls w @ [req, fetch]) = Granted tok) \<and>
             (token_path c = [] \<or> write_error w (token_path c) = None)"
    and ans: "respond w (calls w @ [req, fetch, req]) = Response sc body"
    and low: "sc < 400" and parsed: "json_loads_bytes L body = Parsed j"
  shows "r = Inr j"
proof -
  let ?w1 = "w\<lparr>calls := calls w @ [req]\<rparr>"
  obtain rr c2 w2 where rf: "refresh_token L c ?w1 = (rr, c2, w2)"
    by (cases "refresh_token L c ?w1")
  from refresh_token_effect [OF rf]
  have eff: "calls w2 = calls w @ [req, fetch]" "respond w2 = respond w"
    by (simp_all add: fetch_def)
  from refresh_token_result [OF rf] ok have rr: "rr = Inr ()"
    by (simp add: fetch_def)
  have step: "attempts L m u d [0, Suc 0] c w =
           (case refresh_token L c ?w1 of
              (Inl e, c2, w2) \<Rightarrow> (Inl e, c2, w2)
            | (Inr x, c2, w2) \<Rightarrow> attempts L m u d [Suc 0] c2 w2)"
    using trig unfolding req_def by (rule attempts_first_retry)
  from step rf rr run have last: "attempts L m u d [Suc 0] c2 w2 = (r, c', w')" by simp
  have "respond w2 (calls w2 @ [req]) = Response sc body" using ans eff by simp
  from attempts_last_ok [OF this [unfolded req_def] low parsed, of 0 c2] last
  show ?thesis by simp
qed

text \<open>
  Claim C8, as the code has it. \<open>Module.create\<close> is one call of the manager's \<open>post\<close> on
  \<open>{base}/module\<close> with the payload \<open>{type: module_name, attributes: attributes}\<close>, and
  its result is the result of that call. On the session the manager sends the POST of
  that payload, wrapped as \<open>data\<close>: once, when the first attempt neither raises
  \<open>TokenExpiredError\<close> nor is answered with status 401; otherwise it fetches a token and,
  when that succeeds, sends the same POST a second time, and when it fails, raises the
  error of the refresh. The parsed body of the last answer, when its status is below 400,
  is returned as it is.
\<close>

theorem create_posts:
  fixes L name attrs c w
  defines "payload \<equiv> JObj [(''type'', JStr name), (''attributes'', JObj attrs)]"
    and "post \<equiv> Request POST (quote L (baseurl c @ ''/module''))
                    (Some (json_dumps L (JObj [(''data'',
                       JObj [(''type'', JStr name), (''attributes'', JObj attrs)])])))"
    and "fetch \<equiv> FetchToken (butlast (butlast (baseurl c)) @ ''access_token'')
                     (client_id c) (client_secret c)"
  assumes run: "module_create L name attrs c w = (r, c', w')"
  shows "module_create L name attrs c w =
           minthcm_post L (baseurl c @ ''/module'') payload c w \<and>
         (respond w (calls w @ [post]) \<noteq> TokenExpired \<and>
          (\<forall>body. respond w (calls w @ [post]) \<noteq> Response 401 body) \<longrightarrow>
            calls w' = calls w @ [post] \<and>
            (\<forall>sc body j. respond w (calls w @ [post]) = Response sc body \<and> sc < 400 \<and>
                json_loads_bytes L body = Parsed j \<longrightarrow> r = Inr j)) \<and>
         ((respond w (calls w @ [post]) = TokenExpired \<or>
           (\<exists>body. respond w (calls w @ [post]) = Response 401 body)) \<and>
          (\<exists>tok. grant w (calls w @ [post, fetch]) = Granted tok) \<and>
          (token_path c = [] \<or> write_error w (token_path c) = None) \<longrightarrow>
            calls w' = calls w @ [post, fetch, post] \<and>
            (\<forall>sc body j. respond w (calls w @ [post, fetch, post]) = Response sc body \<and>
                sc < 400 \<and> json_loads_bytes L body = Parsed j \<longrightarrow> r = Inr j)) \<and>
         ((respond w (calls w @ [post]) = TokenExpired \<or>
           (\<exists>body. respond w (calls w @ [post]) = Response 401 body)) \<and>
          \<not> ((\<exists>tok. grant w (calls w @ [post, fetch]) = Granted tok) \<and>
             (token_path c = [] \<or> write_error w (token_path c) = None)) \<longrightarrow>
            calls w' = calls w @ [post, fetch] \<and> (\<exists>e. r = Inl e \<and> is_minthcm_error e))"
proof -
  let ?u = "quote L (baseurl c @ ''/module'')"
  let ?d = "json_dumps L (JObj [(''data'', payload)])"
  have eq: "module_create L name attrs c w =
              minthcm_post L (baseurl c @ ''/module'') payload c w"
    by (simp add: module_create_def Let_def payload_def)
  have run': "attempts L POST ?u ?d [0, Suc 0] c w = (r, c', w')"
    using run
    by (simp add: module_create_def minthcm_post_def Let_def request_attempts
          rstrip_slash_module payload_def)
  have post: "post = Request POST ?u (if POST = GET \<or> POST = DELETE then None else Some ?d)"
    by (simp add: post_def payload_def)
  have fetch: "fetch = FetchToken (token_url (baseurl c)) (client_id c) (client_secret c)"
    by (simp add: fetch_def token_url_butlast)
  have plain: "respond w (calls w @ [post]) \<noteq> TokenExpired \<and>
          (\<forall>body. respond w (calls w @ [post]) \<noteq> Response 401 body) \<longrightarrow>
            calls w' = calls w @ [post] \<and>
            (\<forall>sc body j. respond w (calls w @ [post]) = Response sc body \<and> sc < 400 \<and>
                json_loads_bytes L body = Parsed j \<longrightarrow> r = Inr j)"
  proof
    assume a: "respond w (calls w @ [post]) \<noteq> TokenExpired \<and>
          (\<forall>body. respond w (calls w @ [post]) \<noteq> Response 401 body)"
    then have a1: "respond w (calls w @ [post]) \<noteq> TokenExpired"
      and a2: "\<forall>body. respond w (calls w @ [post]) \<noteq> Response 401 body" by simp_all
    from attempts_first_plain [OF run' a1 [unfolded post] a2 [unfolded post]]
    have cs: "calls w' = calls w @ [post]" by (simp add: post)
    have "\<forall>sc body j. respond w (calls w @ [post]) = Response sc body \<and> sc < 400 \<and>
                json_loads_bytes L body = Parsed j \<longrightarrow> r = Inr j"
    proof (intro allI impI)
      fix sc body j
      assume b: "respond w (calls w @ [post]) = Response sc body \<and> sc < 400 \<and>
                json_loads_bytes L body = Parsed j"
      then have b1: "respond w (calls w @ [post]) = Response sc body"
        and b2: "sc < 400" and b3: "json_loads_bytes L body = Parsed j" by simp_all
      from attempts_first_ok [OF b1 [unfolded post] b2 b3, where rest = "[Suc 0]" and c = c] run'
      show "r = Inr j" by simp
    qed
    with cs show "calls w' = calls w @ [post] \<and>
            (\<forall>sc body j. respond w (calls w @ [post]) = Response sc body \<and> sc < 400 \<and>
                json_loads_bytes L body = Parsed j \<longrightarrow> r = Inr j)" by simp
  qed
  have again: "(respond w (calls w @ [post]) = TokenExpired \<or>
           (\<exists>body. respond w (calls w @ [post]) = Response 401 body)) \<and>
          (\<exists>tok. grant w (calls w @ [post, fetch]) = Granted tok) \<and>
          (token_path c = [] \<or> write_error w (token_path c) = None) \<longrightarrow>
            calls w' = calls w @ [post, fetch, post] \<and>
            (\<forall>sc body j. respond w (calls w @ [post, fetch, post]) = Response sc body \<and>
                sc < 400 \<and> json_loads_bytes L body = Parsed j \<longrightarrow> r = Inr j)"
  proof
    assume a: "(respond w (calls w @ [post]) = TokenExpired \<or>
           (\<exists>body. respond w (calls w @ [post]) = Response 401 body)) \<and>
          (\<exists>tok. grant w (calls w @ [post, fetch]) = Granted tok) \<and>
          (token_path c = [] \<or> write_error w (token_path c) = None)"
    then have trig: "respond w (calls w @ [post]) = TokenExpired \<or>
           (\<exists>body. respond w (calls w @ [post]) = Response 401 body)"
      and ok: "(\<exists>tok. grant w (calls w @ [post, fetch]) = Granted tok) \<and>
          (token_path c = [] \<or> write_error w (token_path c) = None)" by simp_all
    from attempts_two_retry [OF run' trig [unfolded post]] ok
    have cs: "calls w' = calls w @ [post, fetch, post]"
      unfolding post fetch by (simp split: if_splits)
    have "\<forall>sc body j. respond w (calls w @ [post, fetch, post]) = Response sc body \<and>
                sc < 400 \<and> json_loads_bytes L body = Parsed j \<longrightarrow> r = Inr j"
    proof (intro allI impI)
      fix sc body j
      assume b: "respond w (calls w @ [post, fetch, post]) = Response sc body \<and>
                sc < 400 \<and> json_loads_bytes L body = Parsed j"
      then have b1: "respond w (calls w @ [post, fetch, post]) = Response sc body"
        and b2: "sc < 400" and b3: "json_loads_bytes L body = Parsed j" by simp_all
      from attempts_two_retry_ok [OF run' trig [unfolded post] ok [unfolded post fetch]
          b1 [unfolded post fetch] b2 b3]
      show "r = Inr j" .
    qed
    with cs show "calls w' = calls w @ [post, fetch, post] \<and>
            (\<forall>sc body j. respond w (calls w @ [post, fetch, post]) = Response sc body \<and>
                sc < 400 \<and> json_loads_bytes L body = Parsed j \<longrightarrow> r = Inr j)" by simp
  qed
  have failed: "(respond w (calls w @ [post]) = TokenExpired \<or>
           (\<exists>body. respond w (calls w @ [post]) = Response 401 body)) \<and>
          \<not> ((\<exists>tok. grant w (calls w @ [post, fetch]) = Granted tok) \<and>
             (token_path c = [] \<or> write_error w (token_path c) = None)) \<longrightarrow>
            calls w' = calls w @ [post, fetch] \<and> (\<exists>e. r = Inl e \<and> is_minthcm_error e)"
  proof
    assume a: "(respond w (calls w @ [post]) = TokenExpired \<or>
           (\<exists>body. respond w (calls w @ [post]) = Response 401 body)) \<and>
          \<not> ((\<exists>tok. grant w (calls w @ [post, fetch]) = Granted tok) \<and>
             (token_path c = [] \<or> write_error w (token_path c) = None))"
    then have trig: "respond w (calls w @ [post]) = TokenExpired \<or>
           (\<exists>body. respond w (calls w @ [post]) = Response 401 body)"
      and bad: "\<not> ((\<exists>tok. grant w (calls w @ [post, fetch]) = Granted tok) \<and>
             (token_path c = [] \<or> write_error w (token_path c) = None))" by simp_all
    from attempts_two_retry [OF run' trig [unfolded post]] bad
    show "calls w' = calls w @ [post, fetch] \<and> (\<exists>e. r = Inl e \<and> is_minthcm_error e)"
      unfolding post fetch by (simp split: if_splits)
  qed
  from eq plain again failed show ?thesis by blast
qed

theorem create_posts_witness:
  "fst (module_create rendering_lib ''Employees'' [(''name'', JStr ''Jane'')] example_client
          (example_world Map.empty (\<lambda>cs. Response 200 ''{}'') (\<lambda>cs. Granted (JObj [])))) =
     Inr (JObj []) \<and>
   calls (snd (snd (module_create rendering_lib ''Employees'' [(''name'', JStr ''Jane'')]
          example_client
          (example_world Map.empty (\<lambda>cs. Response 200 ''{}'') (\<lambda>cs. Granted (JObj [])))))) =
     [Request POST ''http://h/v1/module''
        (Some ''{\"data\": {\"type\": \"Employees\", \"attributes\": {\"name\": \"Jane\"}}}'')] \<and>
   fst (module_create rendering_lib ''Employees'' [(''name'', JStr ''Jane'')] example_client
          (example_world Map.empty
             (\<lambda>cs. if length cs \<le> 1 then Response 401 [] else Response 200 ''{}'')
             (\<lambda>cs. Granted (JObj [])))) =
     Inr (JObj []) \<and>
   calls (snd (snd (module_create rendering_lib ''Employees'' [(''name'', JStr ''Jane'')]
          example_client
          (example_world Map.empty
             (\<lambda>cs. if length cs \<le> 1 then Response 401 [] else Response 200 ''{}'')
             (\<lambda>cs. Granted (JObj [])))))) =
     [Request POST ''http://h/v1/module''
        (Some ''{\"data\": {\"type\": \"Employees\", \"attributes\": {\"name\": \"Jane\"}}}''),
      FetchToken ''http://h/access_token'' ''id'' ''key'',
      Request POST ''http://h/v1/module''
        (Some ''{\"data\": {\"type\": \"Employees\", \"attributes\": {\"name\": \"Jane\"}}}'')] \<and>
   calls (snd (snd (module_create rendering_lib ''Employees'' [(''name'', JStr ''Jane'')]
          example_client
          (example_world Map.empty (\<lambda>cs. Response 401 []) (\<lambda>cs. InvalidClient))))) =
     [Request POST ''http://h/v1/module''
        (Some ''{\"data\": {\"type\": \"Employees\", \"attributes\": {\"name\": \"Jane\"}}}''),
      FetchToken ''http://h/access_token'' ''id'' ''key'']"
proof -
  let ?W1 = "example_world Map.empty (\<lambda>cs. Response 200 ''{}'') (\<lambda>cs. Granted (JObj []))"
  let ?W2 = "example_world Map.empty
               (\<lambda>cs. if length cs \<le> 1 then Response 401 [] else Response 200 ''{}'')
               (\<lambda>cs. Granted (JObj []))"
  let ?W3 = "example_world Map.empty (\<lambda>cs. Response 401 []) (\<lambda>cs. InvalidClient)"
  let ?X1 = "module_create rendering_lib ''Employees'' [(''name'', JStr ''Jane'')]
               example_client ?W1"
  let ?X2 = "module_create rendering_lib ''Employees'' [(''name'', JStr ''Jane'')]
               example_client ?W2"
  let ?X3 = "module_create rendering_lib ''Employees'' [(''name'', JStr ''Jane'')]
               example_client ?W3"
  have r1: "module_create rendering_lib ''Employees'' [(''name'', JStr ''Jane'')]
              example_client ?W1 = (fst ?X1, fst (snd ?X1), snd (snd ?X1))" by simp
  have r2: "module_create rendering_lib ''Employees'' [(''name'', JStr ''Jane'')]
              example_client ?W2 = (fst ?X2, fst (snd ?X2), snd (snd ?X2))" by simp
  have r3: "module_create rendering_lib ''Employees'' [(''name'', JStr ''Jane'')]
              example_client ?W3 = (fst ?X3, fst (snd ?X3), snd (snd ?X3))" by simp
  from create_posts [OF r1, THEN conjunct2]
  have 1: "fst ?X1 = Inr (JObj []) \<and>
           calls (snd (snd ?X1)) =
             [Request POST ''http://h/v1/module''
                (Some ''{\"data\": {\"type\": \"Employees\", \"attributes\": {\"name\": \"Jane\"}}}'')]"
    by (simp add: rendering_lib_def example_lib_def example_client_def example_world_def)
  from create_posts [OF r2, THEN conjunct2]
  have 2: "fst ?X2 = Inr (JObj []) \<and>
           calls (snd (snd ?X2)) =
             [Request POST ''http://h/v1/module''
                (Some ''{\"data\": {\"type\": \"Employees\", \"attributes\": {\"name\": \"Jane\"}}}''),
              FetchToken ''http://h/access_token'' ''id'' ''key'',
              Request POST ''http://h/v1/module''
                (Some ''{\"data\": {\"type\": \"Employees\", \"attributes\": {\"name\": \"Jane\"}}}'')]"
    by (simp add: rendering_lib_def example_lib_def example_client_def example_world_def)
  from create_posts [OF r3, THEN conjunct2]
  have 3: "calls (snd (snd ?X3)) =
             [Request POST ''http://h/v1/module''
                (Some ''{\"data\": {\"type\": \"Employees\", \"attributes\": {\"name\": \"Jane\"}}}''),
              FetchToken ''http://h/access_token'' ''id'' ''key'']"
    by (simp add: rendering_lib_def example_lib_def example_client_def example_world_def)
  from 1 2 3 show ?thesis by simp
qed

text \<open>
  Claim C8 as stated fails: when the first POST is answered with status 401 and the token
  refresh succeeds, \<open>Module.create\<close> sends the POST to \<open>{base}/module\<close> twice.
\<close>

theorem create_posts_counterexample:
  "calls (snd (snd (module_create rendering_lib ''Employees'' [(''name'', JStr ''Jane'')]
          example_client
          (example_world Map.empty
             (\<lambda>cs. if length cs \<le> 1 then Response 401 [] else Response 200 ''{}'')
             (\<lambda>cs. Granted (JObj [])))))) =
     [Request POST ''http://h/v1/module''
        (Some ''{\"data\": {\"type\": \"Employees\", \"attributes\": {\"name\": \"Jane\"}}}''),
      FetchToken ''http://h/access_token'' ''id'' ''key'',
      Request POST ''http://h/v1/module''
        (Some ''{\"data\": {\"type\": \"Employees\", \"attributes\": {\"name\": \"Jane\"}}}'')]"
  by (simp add: module_create_def minthcm_post_def request_def Let_def refresh_token_def
        save_token_def token_url_def rendering_lib_def example_lib_def example_client_def
        example_world_def rstrip_slash_def)

lemma init_login:
  "init L cid secret url path flag w =
     login L \<lparr>baseurl = url, client_id = cid, client_secret = secret, token_path = path,
        logout_on_exit = flag,
        user_agent = ''Mozilla/5.0 (Windows NT 10.0; Win64; x64) AppleWebKit/537.36 '' @
                     ''(KHTML, like Gecko) Chrome/97.0.4692.99 Safari/537.36'',
        session = \<lparr>token = JNull, headers = Map.empty\<rparr>\<rparr> w"
  by (simp only: init_def)

text \<open>
  Claim C9. Every token fetch goes to the base URL without its last two characters,
  followed by \<open>access_token\<close>: this is the URL of the one call that \<open>_refresh_token\<close>
  makes, and of every token fetch among the calls made by \<open>__init__\<close> and by \<open>_request\<close>.
\<close>

theorem token_endpoint:
  "(refresh_token L c w = (r, c', w') \<longrightarrow>
      calls w' = calls w @ [FetchToken (butlast (butlast (baseurl c)) @ ''access_token'')
                              (client_id c) (client_secret c)]) \<and>
   (init L cid secret url path flag w = (ri, ci, wi) \<longrightarrow>
      (\<exists>new. calls wi = calls w @ new \<and>
         (\<forall>t i s. FetchToken t i s \<in> set new \<longrightarrow> t = butlast (butlast url) @ ''access_token''))) \<and>
   (request L u m p c w = (rq, cq, wq) \<longrightarrow>
      (\<exists>new. calls wq = calls w @ new \<and>
         (\<forall>t i s. FetchToken t i s \<in> set new \<longrightarrow>
            t = butlast (butlast (baseurl c)) @ ''access_token'')))"
proof (intro conjI impI)
  assume "refresh_token L c w = (r, c', w')"
  from refresh_token_effect [OF this]
  show "calls w' = calls w @ [FetchToken (butlast (butlast (baseurl c)) @ ''access_token'')
                              (client_id c) (client_secret c)]"
    by (simp add: token_url_butlast)
next
  assume i: "init L cid secret url path flag w = (ri, ci, wi)"
  define c0 where "c0 = \<lparr>baseurl = url, client_id = cid, client_secret = secret,
        token_path = path, logout_on_exit = flag,
        user_agent = ''Mozilla/5.0 (Windows NT 10.0; Win64; x64) AppleWebKit/537.36 '' @
                     ''(KHTML, like Gecko) Chrome/97.0.4692.99 Safari/537.36'',
        session = \<lparr>token = JNull, headers = Map.empty\<rparr>\<rparr>"
  have "login L c0 w = (ri, ci, wi)" using i unfolding init_login c0_def .
  from login_calls [OF this]
  have "calls wi = calls w @ [] \<or>
             calls wi = calls w @ [FetchToken (butlast (butlast url) @ ''access_token'') cid secret]"
    by (simp add: c0_def token_url_butlast)
  then show "\<exists>new. calls wi = calls w @ new \<and>
         (\<forall>t i s. FetchToken t i s \<in> set new \<longrightarrow> t = butlast (butlast url) @ ''access_token'')"
  proof
    assume "calls wi = calls w @ []"
    then have "calls wi = calls w @ [] \<and>
         (\<forall>t i s. FetchToken t i s \<in> set [] \<longrightarrow> t = butlast (butlast url) @ ''access_token'')"
      by simp
    then show ?thesis by blast
  next
    assume "calls wi = calls w @ [FetchToken (butlast (butlast url) @ ''access_token'') cid secret]"
    then have "calls wi = calls w @ [FetchToken (butlast (butlast url) @ ''access_token'') cid secret] \<and>
         (\<forall>t i s. FetchToken t i s \<in> set [FetchToken (butlast (butlast url) @ ''access_token'') cid secret]
            \<longrightarrow> t = butlast (butlast url) @ ''access_token'')"
      by simp
    then show ?thesis by blast
  qed
next
  assume rq: "request L u m p c w = (rq, cq, wq)"
  let ?req = "Request m (quote L (rstrip_slash u))
                   (if m = GET \<or> m = DELETE then None
                    else Some (json_dumps L
                           (JObj [(''data'', case p of None \<Rightarrow> JNull | Some x \<Rightarrow> x)])))"
  let ?fetch = "FetchToken (token_url (baseurl c)) (client_id c) (client_secret c)"
  let ?P = "\<lambda>new. calls wq = calls w @ new \<and>
         (\<forall>t i s. FetchToken t i s \<in> set new \<longrightarrow>
            t = butlast (butlast (baseurl c)) @ ''access_token'')"
  from request_effect [OF rq]
  have "calls wq = calls w @ [?req] \<or> calls wq = calls w @ [?req, ?fetch] \<or>
        calls wq = calls w @ [?req, ?fetch, ?req]" by simp
  then have "?P [?req] \<or> ?P [?req, ?fetch] \<or> ?P [?req, ?fetch, ?req]"
    by (auto simp: token_url_butlast)
  then show "\<exists>new. ?P new" by blast
qed

theorem token_endpoint_witness:
  "calls (snd (snd (refresh_token example_lib example_client
            (example_world Map.empty (\<lambda>cs. Response 401 []) (\<lambda>cs. Granted (JObj [])))))) =
     [FetchToken ''http://h/access_token'' ''id'' ''key''] \<and>
   {t. \<exists>i s. FetchToken t i s \<in> set (calls (snd (snd (init example_lib ''id'' ''key''
            ''http://h/v1'' ''t.json'' False
            (example_world Map.empty (\<lambda>cs. Response 401 []) (\<lambda>cs. Granted (JObj [])))))))}
     \<subseteq> {''http://h/access_token''} \<and>
   {t. \<exists>i s. FetchToken t i s \<in> set (calls (snd (snd (request example_lib ''u'' GET None
            example_client
            (example_world Map.empty (\<lambda>cs. Response 401 []) (\<lambda>cs. Granted (JObj [])))))))}
     \<subseteq> {''http://h/access_token''}"
proof -
  let ?W = "example_world Map.empty (\<lambda>cs. Response 401 []) (\<lambda>cs. Granted (JObj []))"
  let ?X = "refresh_token example_lib example_client ?W"
  let ?Y = "init example_lib ''id'' ''key'' ''http://h/v1'' ''t.json'' False ?W"
  let ?Z = "request example_lib ''u'' GET None example_client ?W"
  have w0: "calls ?W = []" by (simp add: example_world_def)
  have b: "butlast (butlast (baseurl example_client)) @ ''access_token'' = ''http://h/access_token''"
    by (simp add: example_client_def)
  have b2: "butlast (butlast ''http://h/v1'') @ ''access_token'' = ''http://h/access_token''"
    by simp
  note th = token_endpoint [where L = example_lib and c = example_client and w = "?W"
      and r = "fst ?X" and c' = "fst (snd ?X)" and w' = "snd (snd ?X)"
      and cid = "''id''" and secret = "''key''" and url = "''http://h/v1''"
      and path = "''t.json''" and flag = False
      and ri = "fst ?Y" and ci = "fst (snd ?Y)" and wi = "snd (snd ?Y)"
      and u = "''u''" and m = GET and p = None
      and rq = "fst ?Z" and cq = "fst (snd ?Z)" and wq = "snd (snd ?Z)"]
  from th have 1: "calls (snd (snd ?X)) = [FetchToken ''http://h/access_token'' ''id'' ''key'']"
    unfolding b w0 by (simp add: example_client_def)
  from th have 2: "\<forall>t i s. FetchToken t i s \<in> set (calls (snd (snd ?Y))) \<longrightarrow>
       t = ''http://h/access_token''"
    unfolding b b2 w0 by auto
  from th have 3: "\<forall>t i s. FetchToken t i s \<in> set (calls (snd (snd ?Z))) \<longrightarrow>
       t = ''http://h/access_token''"
    unfolding b b2 w0 by auto
  from 1 2 3 show ?thesis by blast
qed

text \<open>
  Claim C7. \<open>__init__\<close> with a token path whose file can be opened: when the file holds
  text that parses and the session accepts the parsed token, no call is made on the
  session and the session holds that token; when the file is missing, or holds text
  that does not parse, exactly one call is made, the token fetch at the token endpoint.
\<close>

theorem init_token_load:
  assumes run: "init L cid secret url path flag w = (r, c', w')"
    and path: "path \<noteq> []" and readable: "read_error w path = None"
  shows "(\<forall>content j. file_content w path = Some content \<and> strip content \<noteq> [] \<and>
             json_loads L (strip content) = Some j \<and> token_setter L j = None \<longrightarrow>
             r = Inr () \<and> calls w' = calls w \<and> token (session c') = j) \<and>
         (file_content w path = None \<or>
          (\<exists>content. file_content w path = Some content \<and> strip content \<noteq> [] \<and>
                  json_loads L (strip content) = None) \<longrightarrow>
             calls w' = calls w @
               [FetchToken (butlast (butlast url) @ ''access_token'') cid secret])"
proof -
  define c0 where "c0 = \<lparr>baseurl = url, client_id = cid, client_secret = secret,
        token_path = path, logout_on_exit = flag,
        user_agent = ''Mozilla/5.0 (Windows NT 10.0; Win64; x64) AppleWebKit/537.36 '' @
                     ''(KHTML, like Gecko) Chrome/97.0.4692.99 Safari/537.36'',
        session = \<lparr>token = JNull, headers = Map.empty\<rparr>\<rparr>"
  have lg: "login L c0 w = (r, c', w')" using run unfolding init_login c0_def .
  have c0: "token_path c0 = path" "baseurl c0 = url" "client_id c0 = cid"
    "client_secret c0 = secret" by (simp_all add: c0_def)
  show ?thesis
  proof (rule conjI; (intro allI)?; rule impI)
    fix content j
    assume a: "file_content w path = Some content \<and> strip content \<noteq> [] \<and>
             json_loads L (strip content) = Some j \<and> token_setter L j = None"
    have "login L c0 w =
           (Inr (), c0\<lparr>session := (new_session L c0)\<lparr>token := j\<rparr>\<rparr>,
            if logout_on_exit c0 then w\<lparr>atexit := atexit w @ [LogoutHook]\<rparr> else w)"
      using login_loaded [of c0 w content L j] a path readable c0 by simp
    with lg show "r = Inr () \<and> calls w' = calls w \<and> token (session c') = j" by auto
  next
    assume a: "file_content w path = None \<or>
          (\<exists>content. file_content w path = Some content \<and> strip content \<noteq> [] \<and>
                  json_loads L (strip content) = None)"
    let ?c1 = "c0\<lparr>session := new_session L c0\<rparr>"
    have fr: "login L c0 w =
     (case refresh_token L ?c1 w of
        (Inl e, c3, w3) \<Rightarrow> (Inl e, c3, w3)
      | (Inr u, c3, w3) \<Rightarrow>
          (Inr (), c3,
           if logout_on_exit c3 then w3\<lparr>atexit := atexit w3 @ [LogoutHook]\<rparr> else w3))"
      using login_fresh [of c0 w L] a path readable c0 by auto
    obtain rr c2 w2 where rf: "refresh_token L ?c1 w = (rr, c2, w2)"
      by (cases "refresh_token L ?c1 w")
    from login_finish [of "refresh_token L ?c1 w" r c' w'] fr lg rf
    have "calls w' = calls w2" by simp
    with refresh_token_effect [OF rf] c0
    show "calls w' = calls w @
               [FetchToken (butlast (butlast url) @ ''access_token'') cid secret]"
      by (simp add: token_url_butlast)
  qed
qed

theorem init_token_load_witness:
  "calls (snd (snd (init example_lib ''id'' ''key'' ''http://h/v1'' ''t.json'' False
            (example_world [''t.json'' \<mapsto> '' {} ''] (\<lambda>cs. Response 200 ''{}'')
               (\<lambda>cs. Granted (JObj [])))))) = [] \<and>
   calls (snd (snd (init example_lib ''id'' ''key'' ''http://h/v1'' ''t.json'' False
            (example_world Map.empty (\<lambda>cs. Response 200 ''{}'')
               (\<lambda>cs. Granted (JObj [])))))) =
     [FetchToken ''http://h/access_token'' ''id'' ''key'']"
proof -
  let ?W1 = "example_world [''t.json'' \<mapsto> '' {} ''] (\<lambda>cs. Response 200 ''{}'')
               (\<lambda>cs. Granted (JObj []))"
  let ?W2 = "example_world Map.empty (\<lambda>cs. Response 200 ''{}'') (\<lambda>cs. Granted (JObj []))"
  let ?X1 = "init example_lib ''id'' ''key'' ''http://h/v1'' ''t.json'' False ?W1"
  let ?X2 = "init example_lib ''id'' ''key'' ''http://h/v1'' ''t.json'' False ?W2"
  have r1: "init example_lib ''id'' ''key'' ''http://h/v1'' ''t.json'' False ?W1 =
              (fst ?X1, fst (snd ?X1), snd (snd ?X1))" by simp
  have r2: "init example_lib ''id'' ''key'' ''http://h/v1'' ''t.json'' False ?W2 =
              (fst ?X2, fst (snd ?X2), snd (snd ?X2))" by simp
  have p: "''t.json'' \<noteq> []" by simp
  have e1: "read_error ?W1 ''t.json'' = None" by (simp add: example_world_def)
  have e2: "read_error ?W2 ''t.json'' = None" by (simp add: example_world_def)
  have st: "strip '' {} '' = ''{}''" by (simp add: strip_def is_space_def)
  note a = init_token_load [OF r1 p e1, THEN conjunct1, rule_format, of "'' {} ''" "JObj []"]
  note b = init_token_load [OF r2 p e2, THEN conjunct2, rule_format]
  from a have 1: "calls (snd (snd ?X1)) = []"
    by (simp add: st example_world_def example_lib_def)
  from b have 2: "calls (snd (snd ?X2)) = [FetchToken ''http://h/access_token'' ''id'' ''key'']"
    by (simp add: example_world_def)
  from 1 2 show ?thesis by simp
qed

lemma refresh_token_other_files:
  "refresh_token L c (w\<lparr>file_content := f\<rparr>) =
     (case refresh_token L c w of
        (r, c', w') \<Rightarrow>
          (r, c', w'\<lparr>file_content :=
                      (if r = Inr () \<and> token_path c \<noteq> []
                       then f(token_path c \<mapsto> json_dumps L (token (session c')))
                       else f)\<rparr>))"
  by (auto simp: refresh_token_def save_token_def Let_def
           split: grant_outcome.splits option.splits)

lemma refresh_token_saved:
  assumes "refresh_token L c w = (Inr (), c', w')" and "token_path c \<noteq> []"
  shows "file_content w' = (file_content w)(token_path c \<mapsto> json_dumps L (token (session c')))"
  using assms
  by (auto simp: refresh_token_def save_token_def Let_def
           split: grant_outcome.splits option.splits if_splits)

text \<open>
  Claim C10. When the token file exists and holds nothing but white space, \<open>_load_token\<close>
  returns \<open>None\<close>, which is false, whatever the library functions are (so nothing is
  parsed) and without raising, and leaves the client and the world as they were;
  \<open>__init__\<close> then makes exactly one call on the session, the token fetch, and ends as
  it does when the file is missing: same result, same client, same calls and, when it
  succeeds, the same world.
\<close>

theorem blank_token_file:
  assumes path: "path \<noteq> []" and readable: "read_error w path = None"
    and present: "file_content w path = Some content" and blank: "strip content = []"
  shows "(\<forall>L' c. token_path c = path \<longrightarrow> load_token L' c w = (Inr None, c, w)) \<and>
         calls (snd (snd (init L cid secret url path flag w))) =
           calls w @ [FetchToken (butlast (butlast url) @ ''access_token'') cid secret] \<and>
         fst (init L cid secret url path flag w) =
           fst (init L cid secret url path flag
                  (w\<lparr>file_content := (file_content w)(path := None)\<rparr>)) \<and>
         fst (snd (init L cid secret url path flag w)) =
           fst (snd (init L cid secret url path flag
                  (w\<lparr>file_content := (file_content w)(path := None)\<rparr>))) \<and>
         calls (snd (snd (init L cid secret url path flag w))) =
           calls (snd (snd (init L cid secret url path flag
                  (w\<lparr>file_content := (file_content w)(path := None)\<rparr>)))) \<and>
         (fst (init L cid secret url path flag w) = Inr () \<longrightarrow>
            init L cid secret url path flag w =
            init L cid secret url path flag
              (w\<lparr>file_content := (file_content w)(path := None)\<rparr>))"
proof -
  define c0 where "c0 = \<lparr>baseurl = url, client_id = cid, client_secret = secret,
        token_path = path, logout_on_exit = flag,
        user_agent = ''Mozilla/5.0 (Windows NT 10.0; Win64; x64) AppleWebKit/537.36 '' @
                     ''(KHTML, like Gecko) Chrome/97.0.4692.99 Safari/537.36'',
        session = \<lparr>token = JNull, headers = Map.empty\<rparr>\<rparr>"
  define c1 where "c1 = c0\<lparr>session := new_session L c0\<rparr>"
  define f0 where "f0 = (file_content w)(path := None)"
  define w0 where "w0 = w\<lparr>file_content := f0\<rparr>"
  have c0: "token_path c0 = path" "baseurl c0 = url" "client_id c0 = cid"
    "client_secret c0 = secret" by (simp_all add: c0_def)
  have c1: "token_path c1 = path" "baseurl c1 = url" "client_id c1 = cid"
    "client_secret c1 = secret" by (simp_all add: c1_def c0_def)
  have ld: "\<forall>L' c. token_path c = path \<longrightarrow> load_token L' c w = (Inr None, c, w)"
    using path readable present blank by (simp add: load_token_def)
  have iw: "init L cid secret url path flag w = login L c0 w"
    unfolding init_login c0_def ..
  have iw0: "init L cid secret url path flag w0 = login L c0 w0"
    unfolding init_login c0_def ..
  have lw: "login L c0 w =
     (case refresh_token L c1 w of
        (Inl e, c3, w3) \<Rightarrow> (Inl e, c3, w3)
      | (Inr u, c3, w3) \<Rightarrow>
          (Inr (), c3,
           if logout_on_exit c3 then w3\<lparr>atexit := atexit w3 @ [LogoutHook]\<rparr> else w3))"
    unfolding c1_def using login_fresh [of c0 w L] path readable present blank c0 by auto
  have lw0: "login L c0 w0 =
     (case refresh_token L c1 w0 of
        (Inl e, c3, w3) \<Rightarrow> (Inl e, c3, w3)
      | (Inr u, c3, w3) \<Rightarrow>
          (Inr (), c3,
           if logout_on_exit c3 then w3\<lparr>atexit := atexit w3 @ [LogoutHook]\<rparr> else w3))"
    unfolding c1_def using login_fresh [of c0 w0 L] path readable c0
    by (auto simp: w0_def f0_def)
  obtain rr c2 w2 where rf: "refresh_token L c1 w = (rr, c2, w2)"
    by (cases "refresh_token L c1 w")
  have rf0: "refresh_token L c1 w0 =
          (rr, c2, w2\<lparr>file_content :=
                      (if rr = Inr () \<and> token_path c1 \<noteq> []
                       then f0(token_path c1 \<mapsto> json_dumps L (token (session c2)))
                       else f0)\<rparr>)"
    unfolding w0_def refresh_token_other_files rf by simp
  from refresh_token_effect [OF rf] c1
  have cs: "calls w2 = calls w @ [FetchToken (butlast (butlast url) @ ''access_token'') cid secret]"
    by (simp add: token_url_butlast)
  show ?thesis
  proof (cases rr)
    case (Inl e)
    with lw lw0 rf rf0 have "login L c0 w = (Inl e, c2, w2)"
      and "login L c0 w0 = (Inl e, c2, w2\<lparr>file_content := f0\<rparr>)" by simp_all
    with ld cs show ?thesis
      unfolding iw iw0 [unfolded w0_def f0_def] w0_def f0_def by simp
  next
    case (Inr u)
    then have ok: "rr = Inr ()" by simp
    from refresh_token_saved [OF rf [unfolded ok]] path c1
    have "file_content w2 = (file_content w)(path \<mapsto> json_dumps L (token (session c2)))"
      by simp
    then have "f0(token_path c1 \<mapsto> json_dumps L (token (session c2))) = file_content w2"
      by (simp add: f0_def c1)
    with rf0 ok path c1 have "refresh_token L c1 w0 = (rr, c2, w2)" by simp
    with lw lw0 rf have same: "login L c0 w0 = login L c0 w" by simp
    from lw rf ok have "calls (snd (snd (login L c0 w))) = calls w2" by simp
    with ld cs same show ?thesis
      unfolding iw iw0 [unfolded w0_def f0_def] w0_def f0_def by simp
  qed
qed

theorem blank_token_file_witness:
  "load_token example_lib example_client
     (example_world [''t.json'' \<mapsto> ''  ''] (\<lambda>cs. Response 200 ''{}'') (\<lambda>cs. Granted (JObj []))) =
     (Inr None, example_client,
      example_world [''t.json'' \<mapsto> ''  ''] (\<lambda>cs. Response 200 ''{}'') (\<lambda>cs. Granted (JObj []))) \<and>
   calls (snd (snd (init example_lib ''id'' ''key'' ''http://h/v1'' ''t.json'' False
     (example_world [''t.json'' \<mapsto> ''  ''] (\<lambda>cs. Response 200 ''{}'')
        (\<lambda>cs. Granted (JObj [])))))) =
     [FetchToken ''http://h/access_token'' ''id'' ''key'']"
proof -
  let ?W = "example_world [''t.json'' \<mapsto> ''  ''] (\<lambda>cs. Response 200 ''{}'')
              (\<lambda>cs. Granted (JObj []))"
  have p: "''t.json'' \<noteq> []" by simp
  have e: "read_error ?W ''t.json'' = None" by (simp add: example_world_def)
  have f: "file_content ?W ''t.json'' = Some ''  ''" by (simp add: example_world_def)
  have b: "strip ''  '' = []" by (simp add: strip_def is_space_def)
  have t: "token_path example_client = ''t.json''" by (simp add: example_client_def)
  have c: "calls ?W = []" by (simp add: example_world_def)
  note th = blank_token_file [OF p e f b, where L = example_lib and cid = "''id''"
      and secret = "''key''" and url = "''http://h/v1''" and flag = False]
  from th t have 1: "load_token example_lib example_client ?W = (Inr None, example_client, ?W)"
    by blast
  from th c have 2: "calls (snd (snd (init example_lib ''id'' ''key'' ''http://h/v1'' ''t.json''
      False ?W))) = [FetchToken ''http://h/access_token'' ''id'' ''key'']"
    by simp
  from 1 2 show ?thesis by simp
qed

end
